theory Spec2Isabelle
  imports Complex_Main "HOL-Library.Word"
begin

unbundle bit_operations_syntax

section \<open>Shared vocabulary\<close>

text \<open>
  Exceptions of the JavaScript platform that the modelled code can meet. A function of the
  source that can throw returns \<open>error + 'a\<close>, with \<open>Inl\<close> for the exception.
\<close>

datatype error = TypeError | RangeError | InvalidStateError | MalformedInputError

type_synonym byte = "8 word"

section \<open>Style selection (\<open>src/types.ts\<close>, \<open>toggleStyle\<close> in \<open>src/App.tsx\<close>)\<close>

datatype VoiceStyle =
  NEUTRAL | ADVERTISING | HORROR | EMOTIONAL | HAPPY | NARRATIVE | WHISPER | COMBINATION

text \<open>
  \<open>toggleStyle\<close> hands React an updater from the previous list of active styles to the next
  one; the model is that updater, with the early return for \<open>NEUTRAL\<close> as its first branch.
  \<open>filter_ne s\<close> is \<open>prev.filter(x => x !== s)\<close>.
\<close>

definition filter_ne :: "VoiceStyle \<Rightarrow> VoiceStyle list \<Rightarrow> VoiceStyle list" where
  "filter_ne s prev = filter (\<lambda>x. x \<noteq> s) prev"

definition toggleStyle :: "VoiceStyle \<Rightarrow> VoiceStyle list \<Rightarrow> VoiceStyle list" where
  "toggleStyle style prev =
     (if style = NEUTRAL then [NEUTRAL]
      else
        let filtered = filter_ne NEUTRAL prev in
        if style \<in> set filtered then
          (let next = filter_ne style filtered in
           if length next = 0 then [NEUTRAL] else next)
        else filtered @ [style])"

text \<open>The initial value of \<open>activeStyles\<close>, and the list after a sequence of clicks.\<close>

definition initialStyles :: "VoiceStyle list" where
  "initialStyles = [NEUTRAL]"

definition toggleAll :: "VoiceStyle list \<Rightarrow> VoiceStyle list \<Rightarrow> VoiceStyle list" where
  "toggleAll clicks prev = foldl (\<lambda>acc style. toggleStyle style acc) prev clicks"

section \<open>Voice configuration (\<open>src/types.ts\<close>, \<open>src/components/VoiceSelector.tsx\<close>,
  \<open>getActiveVoiceConfig\<close> in \<open>src/App.tsx\<close>)\<close>

datatype Gender = male | female

datatype BaseVoice = Puck | Charon | Kore | Fenrir | Zephyr

record VoiceOption =
  voice_id :: string
  name :: string
  gender :: Gender
  description :: string
  baseVoice :: BaseVoice
  accent :: "string option"

record VoiceProfile =
  profileId :: string
  profileName :: string
  audioUrl :: "string option"
  base64Data :: "string option"
  mimeType :: "string option"
  analysis :: "string option"
  isCustom :: "bool option"
  savedAt :: "int option"

definition PREBUILT_VOICES :: "VoiceOption list" where
  "PREBUILT_VOICES =
    [\<lparr>voice_id = ''aarav'', name = ''Aarav'', gender = male,
       description = ''Professional & Deep'', baseVoice = Fenrir, accent = Some ''Indian''\<rparr>,
     \<lparr>voice_id = ''vikram'', name = ''Vikram'', gender = male,
       description = ''Authoritative & Resonant'', baseVoice = Puck, accent = Some ''Indian''\<rparr>,
     \<lparr>voice_id = ''kabir'', name = ''Kabir'', gender = male,
       description = ''Mature & Gruff'', baseVoice = Fenrir, accent = Some ''Indian''\<rparr>,
     \<lparr>voice_id = ''rohan'', name = ''Rohan'', gender = male,
       description = ''Energetic & Fast'', baseVoice = Charon, accent = Some ''Indian''\<rparr>,
     \<lparr>voice_id = ''ishaan'', name = ''Ishaan'', gender = male,
       description = ''Friendly & Casual'', baseVoice = Charon, accent = Some ''Indian''\<rparr>,
     \<lparr>voice_id = ''neil'', name = ''Neil'', gender = male,
       description = ''Smooth & Warm'', baseVoice = Puck, accent = Some ''Indian''\<rparr>,
     \<lparr>voice_id = ''ananya'', name = ''Ananya'', gender = female,
       description = ''Clear & Sophisticated'', baseVoice = Kore, accent = Some ''Indian''\<rparr>,
     \<lparr>voice_id = ''aditi'', name = ''Aditi'', gender = female,
       description = ''Soft & Ethereal'', baseVoice = Zephyr, accent = Some ''Indian''\<rparr>,
     \<lparr>voice_id = ''ishani'', name = ''Ishani'', gender = female,
       description = ''Confident & Bold'', baseVoice = Kore, accent = Some ''Indian''\<rparr>,
     \<lparr>voice_id = ''kavita'', name = ''Kavita'', gender = female,
       description = ''Polished & Formal'', baseVoice = Zephyr, accent = Some ''Indian''\<rparr>,
     \<lparr>voice_id = ''sanya'', name = ''Sanya'', gender = female,
       description = ''Playful & Bright'', baseVoice = Kore, accent = Some ''Indian''\<rparr>,
     \<lparr>voice_id = ''meera'', name = ''Meera'', gender = female,
       description = ''Gentle & Maternal'', baseVoice = Zephyr, accent = Some ''Indian''\<rparr>]"

text \<open>
  What a template literal inserts for a value: the text of a \<open>Gender\<close>, and
  \<open>undefined\<close> for an optional field that is absent.
\<close>

fun genderText :: "Gender \<Rightarrow> string" where
  "genderText male = ''male''"
| "genderText female = ''female''"

fun optionalText :: "string option \<Rightarrow> string" where
  "optionalText None = ''undefined''"
| "optionalText (Some s) = s"

record VoiceConfig =
  configName :: string
  configBaseVoice :: BaseVoice
  instruction :: string

text \<open>
  \<open>getActiveVoiceConfig\<close> reads \<open>selectedVoiceId\<close>, \<open>voiceProfile\<close>, \<open>pitch\<close> and
  \<open>tone\<close> from the component; they are its arguments here. \<open>pitch\<close> and \<open>tone\<close> are
  numbers that only ever appear inside a template literal, and are given as the text the
  literal renders for them. \<open>PREBUILT_VOICES.find(...) || PREBUILT_VOICES[0]\<close> is
  \<open>undefined\<close> only when the table is empty, and reading \<open>.name\<close> from it then throws a
  \<open>TypeError\<close>.
\<close>

definition findOrFirst :: "string \<Rightarrow> VoiceOption list \<Rightarrow> VoiceOption option" where
  "findOrFirst selectedVoiceId voices =
     (case find (\<lambda>v. voice_id v = selectedVoiceId) voices of
        Some v \<Rightarrow> Some v
      | None \<Rightarrow> (case voices of [] \<Rightarrow> None | v # _ \<Rightarrow> Some v))"

definition prebuiltConfig :: "VoiceOption \<Rightarrow> string \<Rightarrow> string \<Rightarrow> VoiceConfig" where
  "prebuiltConfig prebuilt pitch tone =
     \<lparr>configName = name prebuilt,
      configBaseVoice = baseVoice prebuilt,
      instruction = ''Persona: '' @ name prebuilt @ ''. Identity: '' @ genderText (gender prebuilt)
        @ '', '' @ optionalText (accent prebuilt) @ '' accent. Adjust base pitch to '' @ pitch
        @ ''x and tone to '' @ tone @ ''x.''\<rparr>"

definition getActiveVoiceConfig ::
  "string \<Rightarrow> VoiceProfile option \<Rightarrow> string \<Rightarrow> string \<Rightarrow> error + VoiceConfig" where
  "getActiveVoiceConfig selectedVoiceId voiceProfile pitch tone =
     (case (if selectedVoiceId = ''custom'' then voiceProfile else None) of
        Some profile \<Rightarrow>
          Inr \<lparr>configName = ''Neural Clone'',
               configBaseVoice = Kore,
               instruction = ''STRICT NEURAL RECONSTRUCTION. BIOMETRIC DNA: ''
                 @ optionalText (analysis profile)
                 @ ''. REPLICATE EXACT TIMBRE, RESONANCE, AND PITCH OFFSET AT '' @ pitch
                 @ ''x AND TONE BRIGHTNESS AT '' @ tone @ ''x. PREVENT ANY PHONETIC DRIFT.''\<rparr>
      | None \<Rightarrow>
          (case findOrFirst selectedVoiceId PREBUILT_VOICES of
             None \<Rightarrow> Inl TypeError
           | Some prebuilt \<Rightarrow> Inr (prebuiltConfig prebuilt pitch tone)))"

section \<open>The component's audio state and the Web Audio objects it drives (\<open>src/App.tsx\<close>)\<close>

datatype ConnectionStatus = DISCONNECTED | CONNECTING | CONNECTED | ERROR

text \<open>
  Time is the audio clock of the Web Audio API, a JavaScript number. The model keeps its
  type \<open>'t\<close> open: the scheduling code only compares times (\<open>Math.max\<close>) and adds a
  duration to a time, so \<open>'t\<close> is any linearly ordered type with an addition, and each
  theorem asks of \<open>'t\<close> no more than it uses.

  An \<open>AudioBuffer\<close> is what \<open>decodeAudioData\<close> returns; the code reads only its
  \<open>duration\<close>. An \<open>AudioContext\<close> carries the sample rate it was constructed with.
\<close>

record 't AudioBuffer =
  duration :: 't

record AudioContext =
  sampleRate_ctx :: int

text \<open>
  An \<open>AudioBufferSourceNode\<close>: the buffer assigned to it, whether it is connected to the
  destination, the time passed to \<open>start\<close>, whether \<open>stop\<close> has succeeded on it, and
  its \<open>onended\<close> handler. A handler that the set of active sources could be changed by
  is a function on that set; a node is created without one.
\<close>

record 't SourceNode =
  buffer_node :: "'t AudioBuffer option"
  connected :: bool
  startedAt :: "'t option"
  stopped :: bool
  onended :: "(nat list \<Rightarrow> nat list) option"

record blob =
  blobParts :: "byte list"
  type :: string

text \<open>
  The state: the React state and refs that the audio code reads or writes, then the
  objects behind the references. A source node is referred to by its index in \<open>nodes\<close>,
  a typed array by its index in \<open>heap\<close>; creating an object appends it, so a new
  reference never aliases an old one. \<open>sources\<close> is the \<open>Set\<close> in \<open>sourcesRef\<close>, kept
  in insertion order as a JavaScript \<open>Set\<close> is. \<open>lastAudioUrl\<close> holds the blob its
  object URL stands for.
\<close>

record 't app =
  status :: ConnectionStatus
  isProcessing :: bool
  lastAudioUrl :: "blob option"
  outputAudioContext :: "AudioContext option"
  liveSession :: "nat option"
  micStream :: "nat option"
  nextStartTime :: 't
  sources :: "nat list"
  nodes :: "'t SourceNode list"
  heap :: "byte list list"

definition initialApp :: "'t::zero app" where
  "initialApp =
     \<lparr>status = DISCONNECTED, isProcessing = False, lastAudioUrl = None,
      outputAudioContext = None, liveSession = None, micStream = None,
      nextStartTime = 0, sources = [], nodes = [], heap = []\<rparr>"

subsection \<open>Source nodes\<close>

definition updateNode :: "nat \<Rightarrow> ('t SourceNode \<Rightarrow> 't SourceNode) \<Rightarrow> 't app \<Rightarrow> 't app" where
  "updateNode source f s =
     (if source < length (nodes s) then s\<lparr>nodes := (nodes s)[source := f (nodes s ! source)]\<rparr>
      else s)"

definition createBufferSource :: "'t app \<Rightarrow> nat \<times> 't app" where
  "createBufferSource s =
     (length (nodes s),
      s\<lparr>nodes := nodes s @ [\<lparr>buffer_node = None, connected = False, startedAt = None,
                               stopped = False, onended = None\<rparr>]\<rparr>)"

definition setBuffer :: "nat \<Rightarrow> 't AudioBuffer \<Rightarrow> 't app \<Rightarrow> 't app" where
  "setBuffer source audioBuffer s = updateNode source (\<lambda>n. n\<lparr>buffer_node := Some audioBuffer\<rparr>) s"

definition connect :: "nat \<Rightarrow> 't app \<Rightarrow> 't app" where
  "connect source s = updateNode source (\<lambda>n. n\<lparr>connected := True\<rparr>) s"

definition start :: "nat \<Rightarrow> 't \<Rightarrow> 't app \<Rightarrow> 't app" where
  "start source when s = updateNode source (\<lambda>n. n\<lparr>startedAt := Some when\<rparr>) s"

text \<open>
  \<open>stop\<close> is the one call of the platform that the code guards with \<open>try\<close>. It throws
  on a node that was never started; beyond that, \<open>stopThrows\<close> says on which nodes the
  platform makes it throw, and is arbitrary.
\<close>

definition stop :: "(nat \<Rightarrow> bool) \<Rightarrow> nat \<Rightarrow> 't app \<Rightarrow> error + 't app" where
  "stop stopThrows source s =
     (if stopThrows source \<or> \<not> source < length (nodes s) \<or> startedAt (nodes s ! source) = None
      then Inl InvalidStateError
      else Inr (updateNode source (\<lambda>n. n\<lparr>stopped := True\<rparr>) s))"

text \<open>
  The end of a source's playback: the platform dispatches \<open>ended\<close> to the node, which
  runs the node's handler when it has one.
\<close>

definition ended :: "nat \<Rightarrow> 't app \<Rightarrow> 't app" where
  "ended source s =
     (if source < length (nodes s) then
        (case onended (nodes s ! source) of
           None \<Rightarrow> s
         | Some callback \<Rightarrow> s\<lparr>sources := callback (sources s)\<rparr>)
      else s)"

fun endedAll :: "nat list \<Rightarrow> 't app \<Rightarrow> 't app" where
  "endedAll [] s = s"
| "endedAll (source # rest) s = endedAll rest (ended source s)"

text \<open>\<open>Set.prototype.add\<close> on the insertion-ordered set.\<close>

definition add :: "nat \<Rightarrow> nat list \<Rightarrow> nat list" where
  "add x xs = (if x \<in> set xs then xs else xs @ [x])"

subsection \<open>\<open>stopLiveSession\<close>\<close>

text \<open>
  \<open>sourcesRef.current.forEach(s => { try { s.stop(); } catch(e){} })\<close>: \<open>forEach\<close>
  would pass on an exception of its callback, and \<open>tryStop\<close> is the callback, whose
  \<open>catch\<close> turns a throwing \<open>stop\<close> into a normal return. Closing the live session
  is a call into the transport library with no effect on this state; the reference is
  cleared after it.
\<close>

definition tryStop :: "(nat \<Rightarrow> bool) \<Rightarrow> nat \<Rightarrow> 't app \<Rightarrow> error + 't app" where
  "tryStop stopThrows source s =
     (case stop stopThrows source s of
        Inl e \<Rightarrow> Inr s
      | Inr s' \<Rightarrow> Inr s')"

fun forEach :: "(nat \<Rightarrow> 't app \<Rightarrow> error + 't app) \<Rightarrow> nat list \<Rightarrow> 't app \<Rightarrow> error + 't app" where
  "forEach callback [] s = Inr s"
| "forEach callback (x # xs) s =
     (case callback x s of
        Inl e \<Rightarrow> Inl e
      | Inr s' \<Rightarrow> forEach callback xs s')"

definition stopLiveSession :: "(nat \<Rightarrow> bool) \<Rightarrow> 't::zero app \<Rightarrow> error + 't app" where
  "stopLiveSession stopThrows s =
     (let s1 = (if liveSession s \<noteq> None then s\<lparr>liveSession := None\<rparr> else s) in
      case forEach (tryStop stopThrows) (sources s1) s1 of
        Inl e \<Rightarrow> Inl e
      | Inr s2 \<Rightarrow> Inr (s2\<lparr>sources := [], nextStartTime := 0, status := DISCONNECTED\<rparr>))"

subsection \<open>The \<open>onmessage\<close> handler of \<open>startLiveSession\<close>\<close>

text \<open>
  Line 114 moves the cursor up to the device clock; lines 116 to 121 create a source
  for the decoded buffer, start it at the cursor, advance the cursor by the buffer's
  duration and add the source to the set. \<open>scheduleNext\<close> is the two together: what the
  handler does with a decoded unit when \<open>ctx.currentTime\<close> reads \<open>currentDeviceTime\<close>.
\<close>

definition advanceCursor :: "'t::linorder \<Rightarrow> 't app \<Rightarrow> 't app" where
  "advanceCursor currentTime s = s\<lparr>nextStartTime := max (nextStartTime s) currentTime\<rparr>"

definition playBuffer :: "'t::plus AudioBuffer \<Rightarrow> 't app \<Rightarrow> 't app" where
  "playBuffer audioBuffer s =
     (let (source, s1) = createBufferSource s;
          s2 = setBuffer source audioBuffer s1;
          s3 = connect source s2;
          s4 = start source (nextStartTime s3) s3;
          s5 = s4\<lparr>nextStartTime := nextStartTime s4 + duration audioBuffer\<rparr>
      in s5\<lparr>sources := add source (sources s5)\<rparr>)"

definition scheduleNext :: "'t::{linorder,plus} AudioBuffer \<Rightarrow> 't \<Rightarrow> 't app \<Rightarrow> 't app" where
  "scheduleNext unit currentDeviceTime s = playBuffer unit (advanceCursor currentDeviceTime s)"

text \<open>
  The whole handler. \<open>decode\<close> and \<open>decodeAudioData\<close> live in
  \<open>services/audioUtils\<close> and are parameters here; either may throw, which rejects
  the promise of the handler after line 114 has run. \<open>inlineData\<close> is the optional
  chain \<open>message.serverContent?.modelTurn?.parts?.[0]?.inlineData?.data\<close>, and an
  empty string is falsy as an absent one is. \<open>currentTime\<close> is what \<open>ctx.currentTime\<close>
  reads when the handler runs. The result pairs the exception, if any, with the state.
  The handler awaits the decoder between line 114 and line 116; the model runs one
  handler to its end before the next one starts.
\<close>

record LiveServerMessage =
  inlineData :: "string option"

type_synonym 't decoder = "byte list \<Rightarrow> AudioContext \<Rightarrow> int \<Rightarrow> int \<Rightarrow> error + 't AudioBuffer"

definition onmessage ::
  "(string \<Rightarrow> error + byte list) \<Rightarrow> 't decoder \<Rightarrow> LiveServerMessage \<Rightarrow> 't::{linorder,plus}
     \<Rightarrow> 't app \<Rightarrow> error option \<times> 't app" where
  "onmessage decode decodeAudioData message currentTime s =
     (case (inlineData message, outputAudioContext s) of
        (Some base64Audio, Some ctx) \<Rightarrow>
          if base64Audio = [] then (None, s)
          else
            let s1 = advanceCursor currentTime s in
            (case decode base64Audio of
               Inl e \<Rightarrow> (Some e, s1)
             | Inr bytes \<Rightarrow>
                 (case decodeAudioData bytes ctx 24000 1 of
                    Inl e \<Rightarrow> (Some e, s1)
                  | Inr audioBuffer \<Rightarrow> (None, playBuffer audioBuffer s1)))
      | _ \<Rightarrow> (None, s))"

text \<open>
  A sequence of scheduling requests, each a decoded unit with the device time at its
  call; \<open>deviceTimeBehind\<close> says that at every call the device time is at most the
  cursor's value at that moment.
\<close>

fun scheduleAll :: "('t::{linorder,plus} AudioBuffer \<times> 't) list \<Rightarrow> 't app \<Rightarrow> 't app" where
  "scheduleAll [] s = s"
| "scheduleAll ((unit, currentDeviceTime) # rest) s =
     scheduleAll rest (scheduleNext unit currentDeviceTime s)"

fun deviceTimeBehind :: "('t::{linorder,plus} AudioBuffer \<times> 't) list \<Rightarrow> 't app \<Rightarrow> bool" where
  "deviceTimeBehind [] s = True"
| "deviceTimeBehind ((unit, currentDeviceTime) # rest) s =
     (currentDeviceTime \<le> nextStartTime s
      \<and> deviceTimeBehind rest (scheduleNext unit currentDeviceTime s))"

definition durations :: "('t AudioBuffer \<times> 't) list \<Rightarrow> 't list" where
  "durations requests = map (\<lambda>(unit, currentDeviceTime). duration unit) requests"

text \<open>
  \<open>total ds\<close> is \<open>d1 + ... + dn\<close>, added from the left starting at the reset cursor 0
  as the code adds them. \<open>startTimesFrom n s\<close> lists the start times of the sources
  created since there were \<open>n\<close> of them.
\<close>

definition total :: "'t::{plus,zero} list \<Rightarrow> 't" where
  "total ds = foldl (+) 0 ds"

fun runningTotals :: "'t::plus \<Rightarrow> 't list \<Rightarrow> 't list" where
  "runningTotals c [] = []"
| "runningTotals c (d # ds) = c # runningTotals (c + d) ds"

definition startTimesFrom :: "nat \<Rightarrow> 't app \<Rightarrow> 't option list" where
  "startTimesFrom n s = map startedAt (drop n (nodes s))"

definition noCallbacks :: "'t app \<Rightarrow> bool" where
  "noCallbacks s = (\<forall>n \<in> set (nodes s). onended n = None)"

section \<open>The container writer (\<open>createWavBlob\<close> in \<open>src/App.tsx\<close>)\<close>

text \<open>
  \<open>createWavBlob\<close> allocates an \<open>ArrayBuffer\<close>, writes it through a \<open>DataView\<close>
  and a \<open>Uint8Array\<close> that alias it, and reads the caller's \<open>pcmData\<close> array. All
  three are references into the heap of typed arrays; a \<open>heap\<close> lists the contents of
  the arrays allocated so far, and a reference is an index into it. A write outside a
  buffer throws a \<open>RangeError\<close>.
\<close>

type_synonym heap = "byte list list"

definition newArrayBuffer :: "nat \<Rightarrow> heap \<Rightarrow> nat \<times> heap" where
  "newArrayBuffer n h = (length h, h @ [replicate n 0])"

definition setBytes :: "nat \<Rightarrow> nat \<Rightarrow> byte list \<Rightarrow> heap \<Rightarrow> error + heap" where
  "setBytes buffer offset bs h =
     (if buffer < length h \<and> offset + length bs \<le> length (h ! buffer)
      then Inr (h[buffer := take offset (h ! buffer) @ bs @ drop (offset + length bs) (h ! buffer)])
      else Inl RangeError)"

text \<open>
  \<open>setUint16\<close> and \<open>setUint32\<close> convert their number to 16 and 32 bits, which drops
  everything above, and store the bytes in the order the flag asks for. \<open>sampleRate\<close>
  is an integer here, as every caller passes one.
\<close>

definition bytes16 :: "int \<Rightarrow> bool \<Rightarrow> byte list" where
  "bytes16 v littleEndian =
     (let w = (word_of_int v :: 16 word);
          bs = [ucast w, ucast (drop_bit 8 w)]
      in if littleEndian then bs else rev bs)"

definition bytes32 :: "int \<Rightarrow> bool \<Rightarrow> byte list" where
  "bytes32 v littleEndian =
     (let w = (word_of_int v :: 32 word);
          bs = [ucast w, ucast (drop_bit 8 w), ucast (drop_bit 16 w), ucast (drop_bit 24 w)]
      in if littleEndian then bs else rev bs)"

definition setUint8 :: "nat \<Rightarrow> nat \<Rightarrow> int \<Rightarrow> heap \<Rightarrow> error + heap" where
  "setUint8 view offset v h = setBytes view offset [word_of_int v] h"

definition setUint16 :: "nat \<Rightarrow> nat \<Rightarrow> int \<Rightarrow> bool \<Rightarrow> heap \<Rightarrow> error + heap" where
  "setUint16 view offset v littleEndian h = setBytes view offset (bytes16 v littleEndian) h"

definition setUint32 :: "nat \<Rightarrow> nat \<Rightarrow> int \<Rightarrow> bool \<Rightarrow> heap \<Rightarrow> error + heap" where
  "setUint32 view offset v littleEndian h = setBytes view offset (bytes32 v littleEndian) h"

text \<open>The loop of \<open>writeString\<close>, one \<open>setUint8\<close> per character code.\<close>

fun writeString :: "nat \<Rightarrow> nat \<Rightarrow> string \<Rightarrow> heap \<Rightarrow> error + heap" where
  "writeString view offset [] h = Inr h"
| "writeString view offset (c # cs) h =
     (case setUint8 view offset (of_char c) h of
        Inl e \<Rightarrow> Inl e
      | Inr h' \<Rightarrow> writeString view (offset + 1) cs h')"

text \<open>Statements run in order; the first exception ends the run.\<close>

fun inOrder :: "(heap \<Rightarrow> error + heap) list \<Rightarrow> heap \<Rightarrow> error + heap" where
  "inOrder [] h = Inr h"
| "inOrder (statement # rest) h =
     (case statement h of
        Inl e \<Rightarrow> Inl e
      | Inr h' \<Rightarrow> inOrder rest h')"

definition pcmLength :: "nat \<Rightarrow> heap \<Rightarrow> int" where
  "pcmLength pcmData h = int (length (h ! pcmData))"

text \<open>
  The function returns the blob together with the heap it leaves; a \<open>Blob\<close> copies the
  bytes it is built from. A \<open>pcmData\<close> that refers to no array stands for \<open>undefined\<close>,
  whose \<open>length\<close> cannot be read.
\<close>

definition createWavBlob :: "nat \<Rightarrow> int \<Rightarrow> heap \<Rightarrow> error + blob \<times> heap" where
  "createWavBlob pcmData sampleRate h =
     (if \<not> pcmData < length h then Inl TypeError
      else
        let (buffer, h0) = newArrayBuffer (44 + length (h ! pcmData)) h;
            view = buffer
        in case inOrder
             [writeString view 0 ''RIFF'',
              (\<lambda>h. setUint32 view 4 (36 + pcmLength pcmData h) True h),
              writeString view 8 ''WAVE'',
              writeString view 12 ''fmt '',
              setUint32 view 16 16 True,
              setUint16 view 20 1 True,
              setUint16 view 22 1 True,
              setUint32 view 24 sampleRate True,
              setUint32 view 28 (sampleRate * 2) True,
              setUint16 view 32 2 True,
              setUint16 view 34 16 True,
              writeString view 36 ''data'',
              (\<lambda>h. setUint32 view 40 (pcmLength pcmData h) True h),
              (\<lambda>h. setBytes buffer 44 (h ! pcmData) h)] h0 of
             Inl e \<Rightarrow> Inl e
           | Inr h' \<Rightarrow> Inr (\<lparr>blobParts = h' ! buffer, type = ''audio/wav''\<rparr>, h'))"

text \<open>
  How a reader of the container decodes a little-endian field of 2 or 4 bytes at an
  offset, and the bytes of an ASCII tag.
\<close>

definition readUint16LE :: "byte list \<Rightarrow> nat \<Rightarrow> error + nat" where
  "readUint16LE bs offset =
     (case take 2 (drop offset bs) of
        [b0, b1] \<Rightarrow> Inr (unat b0 + 256 * unat b1)
      | _ \<Rightarrow> Inl RangeError)"

definition readUint32LE :: "byte list \<Rightarrow> nat \<Rightarrow> error + nat" where
  "readUint32LE bs offset =
     (case take 4 (drop offset bs) of
        [b0, b1, b2, b3] \<Rightarrow>
          Inr (unat b0 + 256 * unat b1 + 65536 * unat b2 + 16777216 * unat b3)
      | _ \<Rightarrow> Inl RangeError)"

definition ascii :: "string \<Rightarrow> byte list" where
  "ascii cs = map (\<lambda>c. word_of_int (of_char c)) cs"

text \<open>
  The 44 bytes of the header for a payload length and a sample rate, in the order the
  function writes them; \<open>filled written remaining\<close> is a buffer whose first bytes are
  written and whose remaining ones are still zero.
\<close>

definition wavHeader :: "int \<Rightarrow> int \<Rightarrow> byte list" where
  "wavHeader payloadLength sampleRate =
     ascii ''RIFF'' @ bytes32 (36 + payloadLength) True @ ascii ''WAVE'' @ ascii ''fmt ''
       @ bytes32 16 True @ bytes16 1 True @ bytes16 1 True
       @ bytes32 sampleRate True @ bytes32 (sampleRate * 2) True
       @ bytes16 2 True @ bytes16 16 True
       @ ascii ''data'' @ bytes32 payloadLength True"

definition filled :: "byte list \<Rightarrow> nat \<Rightarrow> byte list" where
  "filled written remaining = written @ replicate remaining 0"

section \<open>Handlers that play or save synthesised audio\<close>

subsection \<open>\<open>startLiveSession\<close> (\<open>src/App.tsx\<close>)\<close>

text \<open>
  What the environment answers to the three calls that can fail inside the \<open>try\<close>:
  building the client, asking for the microphone, and connecting. \<open>config\<close> is the
  result of \<open>getActiveVoiceConfig()\<close>. Any exception lands in the \<open>catch\<close>, which
  sets the status to \<open>ERROR\<close>. \<open>openOutput\<close> is line 104.
\<close>

record liveEnv =
  getAI :: "error option"
  getUserMedia :: "error + nat"
  liveConnect :: "error + nat"

definition openOutput :: "'t app \<Rightarrow> 't app" where
  "openOutput s =
     (if outputAudioContext s = None
      then s\<lparr>outputAudioContext := Some \<lparr>sampleRate_ctx = 24000\<rparr>\<rparr>
      else s)"

definition startLiveSession ::
  "bool \<Rightarrow> liveEnv \<Rightarrow> error + VoiceConfig \<Rightarrow> 't app \<Rightarrow> 't app" where
  "startLiveSession isSwitching env config s =
     (let s0 = (if \<not> isSwitching then s\<lparr>status := CONNECTING\<rparr> else s) in
      case getAI env of
        Some e \<Rightarrow> s0\<lparr>status := ERROR\<rparr>
      | None \<Rightarrow>
          (case config of
             Inl e \<Rightarrow> s0\<lparr>status := ERROR\<rparr>
           | Inr c \<Rightarrow>
               (case (case micStream s0 of
                        Some m \<Rightarrow> Inr s0
                      | None \<Rightarrow>
                          (case getUserMedia env of
                             Inl e \<Rightarrow> Inl e
                           | Inr m \<Rightarrow> Inr (s0\<lparr>micStream := Some m\<rparr>))) of
                  Inl e \<Rightarrow> s0\<lparr>status := ERROR\<rparr>
                | Inr s1 \<Rightarrow>
                    let s2 = openOutput s1 in
                    (case liveConnect env of
                       Inl e \<Rightarrow> s2\<lparr>status := ERROR\<rparr>
                     | Inr session \<Rightarrow> s2\<lparr>liveSession := Some session\<rparr>))))"

subsection \<open>\<open>handleVoiceover\<close>, lines 180 to 190 (\<open>src/App.tsx\<close>)\<close>

text \<open>
  What \<open>handleVoiceover\<close> does with the \<open>audioData\<close> of the synthesis response:
  decode it into a new array, save the container built from it, and play it in a new
  context. \<open>source.start()\<close> starts at time 0. An exception is caught by the
  function's \<open>catch\<close> and the \<open>finally\<close> clears \<open>isProcessing\<close>; the result pairs
  the caught exception, if any, with the state.
\<close>

definition handleVoiceover_audio ::
  "(string \<Rightarrow> error + byte list) \<Rightarrow> 't decoder \<Rightarrow> string option \<Rightarrow> 't::zero app
     \<Rightarrow> error option \<times> 't app" where
  "handleVoiceover_audio decode decodeAudioData audioData s =
     (let (caught, s') =
        (case audioData of
           None \<Rightarrow> (None, s)
         | Some base64 \<Rightarrow>
             if base64 = [] then (None, s)
             else
               (case decode base64 of
                  Inl e \<Rightarrow> (Some e, s)
                | Inr bytes \<Rightarrow>
                    let audioBytes = length (heap s);
                        s1 = s\<lparr>heap := heap s @ [bytes]\<rparr>
                    in (case createWavBlob audioBytes 24000 (heap s1) of
                          Inl e \<Rightarrow> (Some e, s1)
                        | Inr (wav, h) \<Rightarrow>
                            let s2 = s1\<lparr>heap := h, lastAudioUrl := Some wav\<rparr>;
                                ctx = \<lparr>sampleRate_ctx = 24000\<rparr>
                            in (case decodeAudioData (heap s2 ! audioBytes) ctx 24000 1 of
                                  Inl e \<Rightarrow> (Some e, s2)
                                | Inr buffer \<Rightarrow>
                                    let (source, s3) = createBufferSource s2;
                                        s4 = setBuffer source buffer s3;
                                        s5 = connect source s4
                                    in (None, start source 0 s5)))))
      in (caught, s'\<lparr>isProcessing := False\<rparr>))"

subsection \<open>\<open>runCalibrationTest\<close>, lines 108 to 117 (\<open>src/components/VoiceProfileCard.tsx\<close>)\<close>

text \<open>
  The same playback for the calibration sentence, without saving a container. The
  card's own \<open>isTesting\<close> flag is not part of the state here.
\<close>

definition runCalibrationTest_audio ::
  "(string \<Rightarrow> error + byte list) \<Rightarrow> 't decoder \<Rightarrow> string option \<Rightarrow> 't::zero app
     \<Rightarrow> error option \<times> 't app" where
  "runCalibrationTest_audio decode decodeAudioData audioData s =
     (case audioData of
        None \<Rightarrow> (None, s)
      | Some base64 \<Rightarrow>
          if base64 = [] then (None, s)
          else
            (case decode base64 of
               Inl e \<Rightarrow> (Some e, s)
             | Inr audioBytes \<Rightarrow>
                 let ctx = \<lparr>sampleRate_ctx = 24000\<rparr> in
                 (case decodeAudioData audioBytes ctx 24000 1 of
                    Inl e \<Rightarrow> (Some e, s)
                  | Inr buffer \<Rightarrow>
                      let (source, s1) = createBufferSource s;
                          s2 = setBuffer source buffer s1;
                          s3 = connect source s2
                      in (None, start source 0 s3))))"

section \<open>The component as a state machine\<close>

text \<open>
  What can happen to the component, in any order: a call of one of its handlers with
  the answers of the environment, the end of a source's playback, or one of the
  \<open>onopen\<close>, \<open>onerror\<close> and \<open>onclose\<close> callbacks of the live session, which set
  the status. \<open>run\<close> applies a list of events from a state. The two decoders of
  \<open>services/audioUtils\<close> are fixed for a run.
\<close>

datatype 't event =
    StartLiveSession bool liveEnv "error + VoiceConfig"
  | Message LiveServerMessage 't
  | StopLiveSession "nat \<Rightarrow> bool"
  | Ended nat
  | Voiceover "string option"
  | CalibrationTest "string option"
  | Opened
  | Failed
  | Closed

fun step ::
  "(string \<Rightarrow> error + byte list) \<Rightarrow> 't decoder \<Rightarrow> 't::{linorder,plus,zero} event \<Rightarrow> 't app \<Rightarrow> 't app" where
  "step decodeBase64 decodeAudioData (StartLiveSession isSwitching env config) s =
     startLiveSession isSwitching env config s"
| "step decodeBase64 decodeAudioData (Message message currentTime) s =
     snd (onmessage decodeBase64 decodeAudioData message currentTime s)"
| "step decodeBase64 decodeAudioData (StopLiveSession stopThrows) s =
     (case stopLiveSession stopThrows s of Inl e \<Rightarrow> s | Inr s' \<Rightarrow> s')"
| "step decodeBase64 decodeAudioData (Ended source) s = ended source s"
| "step decodeBase64 decodeAudioData (Voiceover audioData) s =
     snd (handleVoiceover_audio decodeBase64 decodeAudioData audioData s)"
| "step decodeBase64 decodeAudioData (CalibrationTest audioData) s =
     snd (runCalibrationTest_audio decodeBase64 decodeAudioData audioData s)"
| "step decodeBase64 decodeAudioData Opened s = s\<lparr>status := CONNECTED\<rparr>"
| "step decodeBase64 decodeAudioData Failed s = s\<lparr>status := ERROR\<rparr>"
| "step decodeBase64 decodeAudioData Closed s = s\<lparr>status := DISCONNECTED\<rparr>"

fun run ::
  "(string \<Rightarrow> error + byte list) \<Rightarrow> 't decoder \<Rightarrow> 't::{linorder,plus,zero} event list \<Rightarrow> 't app \<Rightarrow> 't app" where
  "run decodeBase64 decodeAudioData [] s = s"
| "run decodeBase64 decodeAudioData (e # events) s =
     run decodeBase64 decodeAudioData events (step decodeBase64 decodeAudioData e s)"

text \<open>
  A decoder that is only ever asked for the transport format: whatever it is called
  with, it decodes in a 24000 Hz context at sample rate 24000 with one channel. A
  container \<open>declares24000mono\<close> when its header says 24000 Hz and one channel, and a
  state \<open>honorsFormat\<close> when its output context, if any, is a 24000 Hz one and the
  container behind its download link, if any, declares the format.
\<close>

definition at24000mono :: "'t decoder \<Rightarrow> 't decoder" where
  "at24000mono decodeAudioData =
     (\<lambda>bytes ctx rate channels. decodeAudioData bytes \<lparr>sampleRate_ctx = 24000\<rparr> 24000 1)"

definition declares24000mono :: "blob \<Rightarrow> bool" where
  "declares24000mono wav =
     (readUint32LE (blobParts wav) 24 = Inr 24000 \<and> readUint16LE (blobParts wav) 22 = Inr 1)"

definition honorsFormat :: "'t app \<Rightarrow> bool" where
  "honorsFormat s =
     ((outputAudioContext s = None \<or> outputAudioContext s = Some \<lparr>sampleRate_ctx = 24000\<rparr>)
      \<and> (case lastAudioUrl s of None \<Rightarrow> True | Some wav \<Rightarrow> declares24000mono wav))"

section \<open>The binary codec (\<open>encode\<close> and \<open>decode\<close> of \<open>services/audioUtils\<close>)\<close>

text \<open>
  Modelled from the spec: \<open>services/audioUtils\<close>, which holds \<open>encode\<close> and
  \<open>decode\<close>, is not among the sources; the spec asks for standard base64. This is the
  standard alphabet.
\<close>

definition alphabet :: string where
  "alphabet = ''ABCDEFGHIJKLMNOPQRSTUVWXYZabcdefghijklmnopqrstuvwxyz0123456789+/''"

text \<open>Modelled from the spec: the character of a 6-bit value in standard base64.\<close>

definition sextetChar :: "nat \<Rightarrow> char" where
  "sextetChar n = alphabet ! (n mod 64)"

text \<open>Modelled from the spec: the position of a character in a string, for the inverse.\<close>

fun indexOf :: "char \<Rightarrow> string \<Rightarrow> nat option" where
  "indexOf c [] = None"
| "indexOf c (x # xs) = (if c = x then Some 0 else map_option Suc (indexOf c xs))"

text \<open>Modelled from the spec: the 6-bit value of a character, none for an invalid one.\<close>

definition charSextet :: "char \<Rightarrow> nat option" where
  "charSextet c = indexOf c alphabet"

text \<open>
  Modelled from the spec: \<open>encode(bytes) -> base64 string\<close>, standard base64 with no
  line wrapping and with its padding: three bytes give four characters, and a last
  group of one or two bytes is padded with \<open>=\<close>.
\<close>

fun encode :: "byte list \<Rightarrow> string" where
  "encode [] = []"
| "encode [a] =
     (let x = unat a in
      [sextetChar (x div 4), sextetChar ((x mod 4) * 16), CHR ''='', CHR ''=''])"
| "encode [a, b] =
     (let x = unat a; y = unat b in
      [sextetChar (x div 4), sextetChar ((x mod 4) * 16 + y div 16),
       sextetChar ((y mod 16) * 4), CHR ''=''])"
| "encode (a # b # c # rest) =
     (let x = unat a; y = unat b; z = unat c in
      [sextetChar (x div 4), sextetChar ((x mod 4) * 16 + y div 16),
       sextetChar ((y mod 16) * 4 + z div 64), sextetChar (z mod 64)] @ encode rest)"

text \<open>
  Modelled from the spec: the bytes of one group of four, three or two characters,
  none when a character is invalid.
\<close>

fun decodeGroup :: "char list \<Rightarrow> byte list option" where
  "decodeGroup [c1, c2, c3, c4] =
     (case (charSextet c1, charSextet c2, charSextet c3, charSextet c4) of
        (Some s1, Some s2, Some s3, Some s4) \<Rightarrow>
          Some [of_nat (s1 * 4 + s2 div 16), of_nat ((s2 mod 16) * 16 + s3 div 4),
                of_nat ((s3 mod 4) * 64 + s4)]
      | _ \<Rightarrow> None)"
| "decodeGroup [c1, c2, c3] =
     (case (charSextet c1, charSextet c2, charSextet c3) of
        (Some s1, Some s2, Some s3) \<Rightarrow>
          Some [of_nat (s1 * 4 + s2 div 16), of_nat ((s2 mod 16) * 16 + s3 div 4)]
      | _ \<Rightarrow> None)"
| "decodeGroup [c1, c2] =
     (case (charSextet c1, charSextet c2) of
        (Some s1, Some s2) \<Rightarrow> Some [of_nat (s1 * 4 + s2 div 16)]
      | _ \<Rightarrow> None)"
| "decodeGroup _ = None"

text \<open>
  Modelled from the spec: \<open>decode(base64 string) -> bytes\<close>, standard base64 decoding
  that fails with \<open>MalformedInputError\<close> on an invalid character or on incorrect
  padding: the length is a multiple of four and only the last group may be padded.
\<close>

fun decode :: "string \<Rightarrow> error + byte list" where
  "decode [] = Inr []"
| "decode (c1 # c2 # c3 # c4 # rest) =
     (if rest = [] \<and> c4 = CHR ''='' then
        (case decodeGroup (if c3 = CHR ''='' then [c1, c2] else [c1, c2, c3]) of
           None \<Rightarrow> Inl MalformedInputError
         | Some bytes \<Rightarrow> Inr bytes)
      else
        (case decodeGroup [c1, c2, c3, c4] of
           None \<Rightarrow> Inl MalformedInputError
         | Some bytes \<Rightarrow>
             (case decode rest of
                Inl e \<Rightarrow> Inl e
              | Inr following \<Rightarrow> Inr (bytes @ following))))"
| "decode _ = Inl MalformedInputError"

section \<open>Properties of the style selection\<close>

lemma filter_ne_not_mem: "s \<notin> set (filter_ne s xs)"
  by (simp add: filter_ne_def)

lemma filter_ne_subset: "x \<in> set (filter_ne s xs) \<Longrightarrow> x \<in> set xs \<and> x \<noteq> s"
  by (simp add: filter_ne_def)

lemma toggleStyle_nonempty: "toggleStyle style prev \<noteq> []"
  by (simp add: toggleStyle_def Let_def)

lemma toggleStyle_neutral_iff:
  "NEUTRAL \<in> set (toggleStyle style prev) \<longleftrightarrow> toggleStyle style prev = [NEUTRAL]"
proof (cases "style = NEUTRAL")
  case True
  then show ?thesis by (simp add: toggleStyle_def)
next
  case False
  have a: "NEUTRAL \<notin> set (filter_ne NEUTRAL prev)"
    by (rule filter_ne_not_mem)
  have b: "NEUTRAL \<notin> set (filter_ne style (filter_ne NEUTRAL prev))"
    using a filter_ne_subset by blast
  have c: "filter_ne NEUTRAL prev @ [style] \<noteq> [NEUTRAL]"
    using False by (cases "filter_ne NEUTRAL prev") auto
  have d: "filter_ne style (filter_ne NEUTRAL prev) \<noteq> [NEUTRAL]"
    using b by auto
  show ?thesis
    using False a b c d by (auto simp add: toggleStyle_def Let_def)
qed

lemma toggleAll_snoc: "toggleAll (clicks @ [style]) prev = toggleStyle style (toggleAll clicks prev)"
  by (simp add: toggleAll_def)

text \<open>
  Claim C10. Starting from the initial list \<open>[NEUTRAL]\<close>, after any sequence of
  \<open>toggleStyle\<close> calls the list of active styles is not empty, and it contains \<open>NEUTRAL\<close>
  exactly when it is the singleton \<open>[NEUTRAL]\<close>. Toggling \<open>NEUTRAL\<close> resets any list to
  \<open>[NEUTRAL]\<close>; adding a style other than \<open>NEUTRAL\<close> that is not yet active leaves a list
  with that style and without \<open>NEUTRAL\<close>; and toggling the only active style, when it is
  not \<open>NEUTRAL\<close>, restores \<open>[NEUTRAL]\<close>.
\<close>

theorem toggleStyle_neutral_invariant:
  "toggleAll clicks initialStyles \<noteq> []
   \<and> (NEUTRAL \<in> set (toggleAll clicks initialStyles) \<longleftrightarrow> toggleAll clicks initialStyles = [NEUTRAL])
   \<and> toggleStyle NEUTRAL prev = [NEUTRAL]
   \<and> (style \<noteq> NEUTRAL \<and> style \<notin> set prev \<longrightarrow>
        style \<in> set (toggleStyle style prev) \<and> NEUTRAL \<notin> set (toggleStyle style prev))
   \<and> (style \<noteq> NEUTRAL \<longrightarrow> toggleStyle style [style] = [NEUTRAL])"
proof -
  have inv: "toggleAll clicks initialStyles \<noteq> []
      \<and> (NEUTRAL \<in> set (toggleAll clicks initialStyles) \<longleftrightarrow> toggleAll clicks initialStyles = [NEUTRAL])"
  proof (cases clicks rule: rev_cases)
    case Nil
    then show ?thesis by (simp add: toggleAll_def initialStyles_def)
  next
    case (snoc cs c)
    then show ?thesis
      using toggleStyle_nonempty toggleStyle_neutral_iff by (simp add: toggleAll_snoc)
  qed
  have reset: "toggleStyle NEUTRAL prev = [NEUTRAL]"
    by (simp add: toggleStyle_def)
  have add: "style \<noteq> NEUTRAL \<and> style \<notin> set prev \<longrightarrow>
        style \<in> set (toggleStyle style prev) \<and> NEUTRAL \<notin> set (toggleStyle style prev)"
    by (auto simp add: toggleStyle_def Let_def filter_ne_def)
  have last: "style \<noteq> NEUTRAL \<longrightarrow> toggleStyle style [style] = [NEUTRAL]"
    by (simp add: toggleStyle_def Let_def filter_ne_def)
  from inv reset add last show ?thesis by blast
qed

theorem toggleStyle_neutral_invariant_witness:
  "toggleAll [HORROR, HAPPY, HORROR, HAPPY] initialStyles = [NEUTRAL]
   \<and> toggleAll [HORROR, HAPPY] initialStyles = [HORROR, HAPPY]
   \<and> HAPPY \<in> set (toggleStyle HAPPY [NEUTRAL]) \<and> NEUTRAL \<notin> set (toggleStyle HAPPY [NEUTRAL])
   \<and> toggleStyle HAPPY [HAPPY] = [NEUTRAL]"
proof -
  have a: "toggleAll [HORROR, HAPPY, HORROR, HAPPY] initialStyles = [NEUTRAL]"
    by (simp add: toggleAll_def initialStyles_def toggleStyle_def filter_ne_def)
  have b: "toggleAll [HORROR, HAPPY] initialStyles = [HORROR, HAPPY]"
    by (simp add: toggleAll_def initialStyles_def toggleStyle_def filter_ne_def)
  have c: "HAPPY \<noteq> NEUTRAL \<and> HAPPY \<notin> set [NEUTRAL]" by simp
  show ?thesis
    using a b c toggleStyle_neutral_invariant [of "[HORROR, HAPPY, HORROR, HAPPY]" "[NEUTRAL]" HAPPY]
    by simp
qed

section \<open>Properties of the voice configuration\<close>

lemma custom_not_prebuilt: "''custom'' \<notin> set (map voice_id PREBUILT_VOICES)"
  by (simp add: PREBUILT_VOICES_def)

lemma findOrFirst_unmatched:
  "selectedVoiceId \<notin> set (map voice_id voices) \<Longrightarrow>
   findOrFirst selectedVoiceId voices = (case voices of [] \<Rightarrow> None | v # _ \<Rightarrow> Some v)"
proof -
  assume a: "selectedVoiceId \<notin> set (map voice_id voices)"
  have "find (\<lambda>v. voice_id v = selectedVoiceId) voices = None"
    using a by (auto simp add: find_None_iff)
  then show ?thesis by (simp add: findOrFirst_def)
qed

text \<open>
  Claim C9. When the selected voice id is \<open>custom\<close> and no custom profile is loaded, or
  when it is an id other than \<open>custom\<close> that matches no entry of the prebuilt table,
  \<open>getActiveVoiceConfig\<close> raises nothing: it returns the configuration derived from the
  first prebuilt entry \<open>PREBUILT_VOICES[0]\<close>, the voice \<open>Aarav\<close> on base voice \<open>Fenrir\<close>.
\<close>

theorem getActiveVoiceConfig_fallback:
  assumes "(selectedVoiceId = ''custom'' \<and> voiceProfile = None)
           \<or> (selectedVoiceId \<noteq> ''custom'' \<and> selectedVoiceId \<notin> set (map voice_id PREBUILT_VOICES))"
  shows "getActiveVoiceConfig selectedVoiceId voiceProfile pitch tone
           = Inr (prebuiltConfig (PREBUILT_VOICES ! 0) pitch tone)
         \<and> configName (prebuiltConfig (PREBUILT_VOICES ! 0) pitch tone) = ''Aarav''
         \<and> configBaseVoice (prebuiltConfig (PREBUILT_VOICES ! 0) pitch tone) = Fenrir"
proof -
  have unmatched: "selectedVoiceId \<notin> set (map voice_id PREBUILT_VOICES)"
    using assms custom_not_prebuilt by blast
  have branch: "(if selectedVoiceId = ''custom'' then voiceProfile else None) = None"
    using assms by auto
  have first: "findOrFirst selectedVoiceId PREBUILT_VOICES = Some (PREBUILT_VOICES ! 0)"
    using findOrFirst_unmatched [OF unmatched] by (simp add: PREBUILT_VOICES_def)
  have cfg: "getActiveVoiceConfig selectedVoiceId voiceProfile pitch tone
           = Inr (prebuiltConfig (PREBUILT_VOICES ! 0) pitch tone)"
    by (simp add: getActiveVoiceConfig_def branch first)
  have nm: "configName (prebuiltConfig (PREBUILT_VOICES ! 0) pitch tone) = ''Aarav''"
    by (simp add: prebuiltConfig_def PREBUILT_VOICES_def)
  have bv: "configBaseVoice (prebuiltConfig (PREBUILT_VOICES ! 0) pitch tone) = Fenrir"
    by (simp add: prebuiltConfig_def PREBUILT_VOICES_def)
  from cfg nm bv show ?thesis by simp
qed

theorem getActiveVoiceConfig_fallback_witness:
  "getActiveVoiceConfig ''custom'' None ''1'' ''1''
     = Inr \<lparr>configName = ''Aarav'', configBaseVoice = Fenrir,
            instruction = ''Persona: Aarav. Identity: male, Indian accent. Adjust base pitch to 1x and tone to 1x.''\<rparr>
   \<and> getActiveVoiceConfig ''nobody'' None ''1'' ''1''
     = Inr (prebuiltConfig (PREBUILT_VOICES ! 0) ''1'' ''1'')"
proof -
  have h1: "(''custom'' = ''custom'' \<and> (None :: VoiceProfile option) = None)
            \<or> (''custom'' \<noteq> ''custom'' \<and> ''custom'' \<notin> set (map voice_id PREBUILT_VOICES))"
    by simp
  have h2: "(''nobody'' = ''custom'' \<and> (None :: VoiceProfile option) = None)
            \<or> (''nobody'' \<noteq> ''custom'' \<and> ''nobody'' \<notin> set (map voice_id PREBUILT_VOICES))"
    by (simp add: PREBUILT_VOICES_def)
  have v: "prebuiltConfig (PREBUILT_VOICES ! 0) ''1'' ''1''
     = \<lparr>configName = ''Aarav'', configBaseVoice = Fenrir,
            instruction = ''Persona: Aarav. Identity: male, Indian accent. Adjust base pitch to 1x and tone to 1x.''\<rparr>"
    by (simp add: prebuiltConfig_def PREBUILT_VOICES_def)
  show ?thesis
    using getActiveVoiceConfig_fallback [OF h1, of "''1''" "''1''"]
          getActiveVoiceConfig_fallback [OF h2, of "''1''" "''1''"] v
    by simp
qed

section \<open>Properties of the playback scheduler\<close>

subsection \<open>What one scheduling step does\<close>

lemma playBuffer_eq:
  "playBuffer b s = s\<lparr>nodes := nodes s @ [\<lparr>buffer_node = Some b, connected = True, startedAt = Some (nextStartTime s),
                               stopped = False, onended = None\<rparr>],
      nextStartTime := nextStartTime s + duration b,
      sources := add (length (nodes s)) (sources s)\<rparr>"
  by (simp add: playBuffer_def createBufferSource_def setBuffer_def connect_def start_def updateNode_def Let_def)

lemma scheduleNext_eq:
  "scheduleNext u t s = s\<lparr>nodes := nodes s @ [\<lparr>buffer_node = Some u, connected = True,
                               startedAt = Some (max (nextStartTime s) t),
                               stopped = False, onended = None\<rparr>],
      nextStartTime := max (nextStartTime s) t + duration u,
      sources := add (length (nodes s)) (sources s)\<rparr>"
  by (simp add: scheduleNext_def advanceCursor_def playBuffer_eq)

lemma scheduleNext_fields:
  "nodes (scheduleNext u t s) = nodes s @ [\<lparr>buffer_node = Some u, connected = True,
                               startedAt = Some (max (nextStartTime s) t),
                               stopped = False, onended = None\<rparr>]"
  "nextStartTime (scheduleNext u t s) = max (nextStartTime s) t + duration u"
  "sources (scheduleNext u t s) = add (length (nodes s)) (sources s)"
  by (simp_all add: scheduleNext_eq)

text \<open>
  With a message that carries audio, an output context, and the two decoders
  returning a unit, the handler is \<open>scheduleNext\<close> on that unit.
\<close>

lemma onmessage_decoded:
  assumes "inlineData message = Some base64Audio" and "base64Audio \<noteq> []"
    and "outputAudioContext s = Some ctx"
    and "decodeBase64 base64Audio = Inr bytes"
    and "decodeAudioData bytes ctx 24000 1 = Inr unit"
  shows "onmessage decodeBase64 decodeAudioData message currentTime s
           = (None, scheduleNext unit currentTime s)"
  using assms by (simp add: onmessage_def scheduleNext_def Let_def advanceCursor_def)

subsection \<open>Gap-free sequencing\<close>

lemma runningTotals_length: "length (runningTotals c ds) = length ds"
  by (induction ds arbitrary: c) simp_all

lemma runningTotals_nth:
  "k < length ds \<Longrightarrow> runningTotals c ds ! k = foldl (+) c (take k ds)"
proof (induction ds arbitrary: c k)
  case Nil
  then show ?case by simp
next
  case (Cons d ds)
  then show ?case by (cases k) simp_all
qed

lemma scheduleAll_behind:
  "deviceTimeBehind requests s \<Longrightarrow>
   nextStartTime (scheduleAll requests s) = foldl (+) (nextStartTime s) (durations requests)
   \<and> (\<exists>new. nodes (scheduleAll requests s) = nodes s @ new
         \<and> map startedAt new = map Some (runningTotals (nextStartTime s) (durations requests)))"
proof (induction requests arbitrary: s)
  case Nil
  then show ?case by (simp add: durations_def)
next
  case (Cons r rest)
  obtain u t where r: "r = (u, t)" by (cases r)
  let ?s = "scheduleNext u t s"
  from Cons.prems r have le: "t \<le> nextStartTime s" and behind: "deviceTimeBehind rest ?s"
    by simp_all
  have mx: "max (nextStartTime s) t = nextStartTime s" using le by (simp add: max_def)
  have c: "nextStartTime ?s = nextStartTime s + duration u"
    by (simp add: scheduleNext_fields mx)
  have n: "nodes ?s = nodes s @ [\<lparr>buffer_node = Some u, connected = True,
                               startedAt = Some (nextStartTime s),
                               stopped = False, onended = None\<rparr>]"
    by (simp add: scheduleNext_fields mx)
  have d: "durations ((u, t) # rest) = duration u # durations rest"
    by (simp add: durations_def)
  from Cons.IH [OF behind] obtain new where
    ih1: "nextStartTime (scheduleAll rest ?s) = foldl (+) (nextStartTime ?s) (durations rest)"
    and ih2: "nodes (scheduleAll rest ?s) = nodes ?s @ new"
    and ih3: "map startedAt new = map Some (runningTotals (nextStartTime ?s) (durations rest))"
    by blast
  have a: "nextStartTime (scheduleAll (r # rest) s) = foldl (+) (nextStartTime s) (durations (r # rest))"
    by (simp add: r d ih1 c)
  have b: "nodes (scheduleAll (r # rest) s) = nodes s @ (\<lparr>buffer_node = Some u, connected = True,
                               startedAt = Some (nextStartTime s),
                               stopped = False, onended = None\<rparr> # new)"
    by (simp add: r ih2 n)
  have e: "map startedAt (\<lparr>buffer_node = Some u, connected = True,
                               startedAt = Some (nextStartTime s),
                               stopped = False, onended = None\<rparr> # new)
            = map Some (runningTotals (nextStartTime s) (durations (r # rest)))"
    by (simp add: r d ih3 c)
  from a b e show ?case by blast
qed

lemma startTimesFrom_append:
  "nodes s' = old @ new \<Longrightarrow> startTimesFrom (length old) s' = map startedAt new"
  by (simp add: startTimesFrom_def)

text \<open>
  Claim C1. Start from a reset scheduler, cursor 0, and schedule \<open>n\<close> decoded units
  with durations \<open>d1, ..., dn\<close> through \<open>scheduleNext\<close>, the device time of every
  call being at most the cursor's value at that call. Then the start time used for the
  unit at position \<open>k\<close> (counted from 0) is \<open>d1 + ... + dk\<close>, the total of the
  durations before it; exactly \<open>n\<close> sources were started; and the cursor ends at
  \<open>d1 + ... + dn\<close>. No law of addition is used: the sums are the ones the code forms.
\<close>

theorem scheduleAll_gap_free:
  fixes s :: "'t::{linorder,plus,zero} app"
  assumes "nextStartTime s = 0" and "deviceTimeBehind requests s"
  shows "(\<forall>k < length requests.
            startTimesFrom (length (nodes s)) (scheduleAll requests s) ! k
              = Some (total (take k (durations requests))))
         \<and> length (startTimesFrom (length (nodes s)) (scheduleAll requests s)) = length requests
         \<and> nextStartTime (scheduleAll requests s) = total (durations requests)"
proof -
  from scheduleAll_behind [OF assms(2)] obtain new where
    c: "nextStartTime (scheduleAll requests s) = foldl (+) (nextStartTime s) (durations requests)"
    and n: "nodes (scheduleAll requests s) = nodes s @ new"
    and st: "map startedAt new = map Some (runningTotals (nextStartTime s) (durations requests))"
    by blast
  have len: "length (durations requests) = length requests" by (simp add: durations_def)
  have times: "startTimesFrom (length (nodes s)) (scheduleAll requests s)
                 = map Some (runningTotals 0 (durations requests))"
    using startTimesFrom_append [OF n] st assms(1) by simp
  have nth: "\<forall>k < length requests.
            startTimesFrom (length (nodes s)) (scheduleAll requests s) ! k
              = Some (total (take k (durations requests)))"
    by (simp add: times runningTotals_length runningTotals_nth len total_def)
  have l: "length (startTimesFrom (length (nodes s)) (scheduleAll requests s)) = length requests"
    by (simp add: times runningTotals_length len)
  from nth l c assms(1) show ?thesis by (simp add: total_def)
qed

theorem scheduleAll_gap_free_witness:
  "nextStartTime (initialApp :: real app) = 0
   \<and> deviceTimeBehind [(\<lparr>duration = 1/2\<rparr>, 0), (\<lparr>duration = 1/2\<rparr>, 0), (\<lparr>duration = 1/2\<rparr>, 0)]
         (initialApp :: real app)
   \<and> startTimesFrom 0
         (scheduleAll [(\<lparr>duration = 1/2\<rparr>, 0), (\<lparr>duration = 1/2\<rparr>, 0), (\<lparr>duration = 1/2\<rparr>, 0)]
            (initialApp :: real app)) ! 0 = Some 0
   \<and> startTimesFrom 0
         (scheduleAll [(\<lparr>duration = 1/2\<rparr>, 0), (\<lparr>duration = 1/2\<rparr>, 0), (\<lparr>duration = 1/2\<rparr>, 0)]
            (initialApp :: real app)) ! 1 = Some (1/2)
   \<and> startTimesFrom 0
         (scheduleAll [(\<lparr>duration = 1/2\<rparr>, 0), (\<lparr>duration = 1/2\<rparr>, 0), (\<lparr>duration = 1/2\<rparr>, 0)]
            (initialApp :: real app)) ! 2 = Some 1
   \<and> nextStartTime
         (scheduleAll [(\<lparr>duration = 1/2\<rparr>, 0), (\<lparr>duration = 1/2\<rparr>, 0), (\<lparr>duration = 1/2\<rparr>, 0)]
            (initialApp :: real app))
       = 3/2"
proof -
  let ?three = "[(\<lparr>duration = 1/2\<rparr>, 0), (\<lparr>duration = 1/2\<rparr>, 0), (\<lparr>duration = 1/2\<rparr>, 0)]
                  :: (real AudioBuffer \<times> real) list"
  have h1: "nextStartTime (initialApp :: real app) = 0"
    by (simp add: initialApp_def)
  have h2: "deviceTimeBehind ?three (initialApp :: real app)"
    by (simp add: initialApp_def scheduleNext_fields)
  have n: "length (nodes (initialApp :: real app)) = 0"
    by (simp add: initialApp_def)
  show ?thesis
    using h1 h2 scheduleAll_gap_free [OF h1 h2]
    by (simp add: n total_def durations_def All_less_Suc numeral_2_eq_2)
qed

subsection \<open>Teardown\<close>

lemma updateNode_nodes: "\<exists>ns. updateNode source f s = s\<lparr>nodes := ns\<rparr>"
proof (cases "source < length (nodes s)")
  case True
  then show ?thesis by (auto simp add: updateNode_def)
next
  case False
  then have "updateNode source f s = s\<lparr>nodes := nodes s\<rparr>" by (simp add: updateNode_def)
  then show ?thesis by blast
qed

lemma tryStop_returns: "\<exists>ns. tryStop stopThrows source s = Inr (s\<lparr>nodes := ns\<rparr>)"
proof (cases "stop stopThrows source s")
  case (Inl e)
  then have "tryStop stopThrows source s = Inr (s\<lparr>nodes := nodes s\<rparr>)"
    by (simp add: tryStop_def)
  then show ?thesis by blast
next
  case (Inr s')
  then have "s' = updateNode source (\<lambda>n. n\<lparr>stopped := True\<rparr>) s"
    by (auto simp add: stop_def split: if_splits)
  with Inr updateNode_nodes [of source _ s] show ?thesis
    by (auto simp add: tryStop_def)
qed

lemma forEach_tryStop_returns:
  "\<exists>ns. forEach (tryStop stopThrows) xs s = Inr (s\<lparr>nodes := ns\<rparr>)"
proof (induction xs arbitrary: s)
  case Nil
  have "forEach (tryStop stopThrows) [] s = Inr (s\<lparr>nodes := nodes s\<rparr>)" by simp
  then show ?case by blast
next
  case (Cons x xs)
  obtain ns where 1: "tryStop stopThrows x s = Inr (s\<lparr>nodes := ns\<rparr>)"
    using tryStop_returns by blast
  obtain ns' where 2: "forEach (tryStop stopThrows) xs (s\<lparr>nodes := ns\<rparr>) = Inr (s\<lparr>nodes := ns, nodes := ns'\<rparr>)"
    using Cons.IH [of "s\<lparr>nodes := ns\<rparr>"] by blast
  have "forEach (tryStop stopThrows) (x # xs) s = Inr (s\<lparr>nodes := ns'\<rparr>)"
    by (simp add: 1 2)
  then show ?case by blast
qed

lemma stopLiveSession_zeroed:
  "\<exists>s'. stopLiveSession stopThrows s = Inr s' \<and> sources s' = [] \<and> nextStartTime s' = 0
         \<and> status s' = DISCONNECTED \<and> liveSession s' = None"
proof -
  let ?s1 = "if liveSession s \<noteq> None then s\<lparr>liveSession := None\<rparr> else s"
  have l1: "liveSession ?s1 = None" by simp
  obtain ns where s2: "forEach (tryStop stopThrows) (sources ?s1) ?s1 = Inr (?s1\<lparr>nodes := ns\<rparr>)"
    using forEach_tryStop_returns by blast
  have "stopLiveSession stopThrows s
          = Inr (?s1\<lparr>nodes := ns, sources := [], nextStartTime := 0, status := DISCONNECTED\<rparr>)"
    unfolding stopLiveSession_def Let_def by (simp only: s2 sum.case)
  moreover have "liveSession (?s1\<lparr>nodes := ns, sources := [], nextStartTime := 0, status := DISCONNECTED\<rparr>) = None"
    by simp
  ultimately show ?thesis by simp
qed

text \<open>
  Claim C3. \<open>stopLiveSession\<close> returns normally from every state, whichever of the
  \<open>stop\<close> calls on the active sources throw, and leaves the set of active sources
  empty and the cursor at 0. Called again on the state it left, where the set is empty,
  it returns normally again with the same two values.
\<close>

theorem stopLiveSession_always_zeroes:
  "\<exists>s' s''. stopLiveSession stopThrows s = Inr s' \<and> sources s' = [] \<and> nextStartTime s' = 0
     \<and> stopLiveSession stopThrowsAgain s' = Inr s'' \<and> sources s'' = [] \<and> nextStartTime s'' = 0"
proof -
  obtain s' where 1: "stopLiveSession stopThrows s = Inr s'" "sources s' = []" "nextStartTime s' = 0"
    using stopLiveSession_zeroed by blast
  obtain s'' where 2: "stopLiveSession stopThrowsAgain s' = Inr s''" "sources s'' = []" "nextStartTime s'' = 0"
    using stopLiveSession_zeroed by blast
  from 1 2 show ?thesis by blast
qed

subsection \<open>The cursor never moves back\<close>

lemma scheduleAll_monotone:
  fixes s :: "'t::{linorder,ordered_comm_monoid_add} app"
  shows "(\<forall>r \<in> set requests. 0 \<le> duration (fst r)) \<Longrightarrow>
         nextStartTime s \<le> nextStartTime (scheduleAll requests s)"
proof (induction requests arbitrary: s)
  case Nil
  then show ?case by simp
next
  case (Cons r rest)
  obtain u t where r: "r = (u, t)" by (cases r)
  from Cons.prems r have d: "0 \<le> duration u" by simp
  have "nextStartTime s \<le> max (nextStartTime s) t" by simp
  also have "\<dots> \<le> max (nextStartTime s) t + duration u"
    using d by (simp add: add_increasing2)
  finally have step: "nextStartTime s \<le> nextStartTime (scheduleNext u t s)"
    by (simp add: scheduleNext_fields)
  have "nextStartTime (scheduleNext u t s) \<le> nextStartTime (scheduleAll rest (scheduleNext u t s))"
    using Cons.prems by (intro Cons.IH) simp
  with step show ?case by (simp add: r)
qed

lemma ended_nextStartTime: "nextStartTime (ended source s) = nextStartTime s"
  by (simp add: ended_def split: option.splits)

text \<open>
  Claim C5. A \<open>scheduleNext\<close> call starts its source at the maximum of the cursor and
  the caller's device time, which is at least each of the two, and leaves the cursor at
  that start time plus the unit's duration. So over any sequence of \<open>scheduleNext\<close>
  calls with nonnegative durations the cursor does not decrease; the end of a source's
  playback leaves it alone; and \<open>stopLiveSession\<close> is what sets it back to 0.
\<close>

theorem scheduleNext_cursor_monotone:
  fixes s :: "'t::{linorder,ordered_comm_monoid_add} app"
  shows "startTimesFrom (length (nodes s)) (scheduleNext unit currentDeviceTime s)
           = [Some (max (nextStartTime s) currentDeviceTime)]
     \<and> currentDeviceTime \<le> max (nextStartTime s) currentDeviceTime
     \<and> nextStartTime s \<le> max (nextStartTime s) currentDeviceTime
     \<and> nextStartTime (scheduleNext unit currentDeviceTime s)
           = max (nextStartTime s) currentDeviceTime + duration unit
     \<and> ((\<forall>r \<in> set requests. 0 \<le> duration (fst r)) \<longrightarrow>
           nextStartTime s \<le> nextStartTime (scheduleAll requests s))
     \<and> nextStartTime (ended source s) = nextStartTime s
     \<and> (\<exists>s'. stopLiveSession stopThrows s = Inr s' \<and> nextStartTime s' = 0)"
proof -
  have a: "startTimesFrom (length (nodes s)) (scheduleNext unit currentDeviceTime s)
           = [Some (max (nextStartTime s) currentDeviceTime)]"
    by (simp add: startTimesFrom_def scheduleNext_fields)
  have b: "nextStartTime (scheduleNext unit currentDeviceTime s)
           = max (nextStartTime s) currentDeviceTime + duration unit"
    by (simp add: scheduleNext_fields)
  have c: "\<exists>s'. stopLiveSession stopThrows s = Inr s' \<and> nextStartTime s' = 0"
    using stopLiveSession_zeroed [of stopThrows s] by blast
  from a b c scheduleAll_monotone [of requests s] ended_nextStartTime [of source s]
  show ?thesis by simp
qed

theorem scheduleNext_cursor_monotone_witness:
  "startTimesFrom 0 (scheduleNext \<lparr>duration = 1/2\<rparr> 2 (initialApp :: real app)) = [Some 2]
   \<and> nextStartTime (scheduleNext \<lparr>duration = 1/2\<rparr> 2 (initialApp :: real app)) = 5/2
   \<and> nextStartTime (initialApp :: real app)
        \<le> nextStartTime (scheduleAll [(\<lparr>duration = 1/2\<rparr>, 2), (\<lparr>duration = 1/4\<rparr>, 0)] initialApp)
   \<and> nextStartTime (scheduleAll [(\<lparr>duration = 1/2\<rparr>, 2), (\<lparr>duration = 1/4\<rparr>, 0)] (initialApp :: real app))
        = 11/4"
proof -
  let ?two = "[(\<lparr>duration = 1/2\<rparr>, 2), (\<lparr>duration = 1/4\<rparr>, 0)] :: (real AudioBuffer \<times> real) list"
  have h: "\<forall>r \<in> set ?two. 0 \<le> duration (fst r)"
    by simp
  have n: "length (nodes (initialApp :: real app)) = 0" "nextStartTime (initialApp :: real app) = 0"
    by (simp_all add: initialApp_def)
  have v: "nextStartTime (scheduleAll ?two (initialApp :: real app)) = 11/4"
    by (simp add: scheduleNext_fields initialApp_def)
  show ?thesis
    using h v
      scheduleNext_cursor_monotone [of "initialApp :: real app" "\<lparr>duration = 1/2\<rparr>" 2 ?two 0 "\<lambda>_. False"]
    by (simp add: n)
qed

subsection \<open>No completion callback\<close>

lemma ended_noCallbacks: "noCallbacks s \<Longrightarrow> ended source s = s"
  by (simp add: ended_def noCallbacks_def split: option.splits)

lemma scheduleNext_noCallbacks: "noCallbacks s \<Longrightarrow> noCallbacks (scheduleNext u t s)"
  by (simp add: noCallbacks_def scheduleNext_fields)

lemma scheduleAll_noCallbacks: "noCallbacks s \<Longrightarrow> noCallbacks (scheduleAll requests s)"
proof (induction requests arbitrary: s)
  case Nil
  then show ?case by simp
next
  case (Cons r rest)
  obtain u t where r: "r = (u, t)" by (cases r)
  show ?case using Cons.prems by (simp add: r Cons.IH scheduleNext_noCallbacks)
qed

lemma scheduleAll_sources:
  "sources s = [0..<length (nodes s)] \<Longrightarrow>
   sources (scheduleAll requests s) = [0..<length (nodes s) + length requests]
   \<and> length (nodes (scheduleAll requests s)) = length (nodes s) + length requests"
proof (induction requests arbitrary: s)
  case Nil
  then show ?case by simp
next
  case (Cons r rest)
  obtain u t where r: "r = (u, t)" by (cases r)
  have 1: "sources (scheduleNext u t s) = [0..<length (nodes (scheduleNext u t s))]"
    using Cons.prems by (simp add: scheduleNext_fields add_def)
  have 2: "length (nodes (scheduleNext u t s)) = Suc (length (nodes s))"
    by (simp add: scheduleNext_fields)
  from Cons.IH [OF 1] show ?case by (simp add: r 2)
qed

lemma endedAll_noCallbacks: "noCallbacks s \<Longrightarrow> endedAll finished s = s"
  by (induction finished) (simp_all add: ended_noCallbacks)

text \<open>
  Claim C2, as the code has it. A \<open>scheduleNext\<close> call adds the source it creates to
  the set of active sources and leaves that source without an \<open>onended\<close> handler.
  So after scheduling any number of units from the initial state the set has one entry
  per unit, and the end of playback of any of the sources, in any order, changes
  nothing: after three units the set has size 3 and keeps it. What empties the set is
  \<open>stopLiveSession\<close>.
\<close>

theorem scheduleNext_registers_no_callback:
  fixes s :: "'t::{linorder,plus,zero} app"
  shows "sources (scheduleNext unit currentDeviceTime s) = add (length (nodes s)) (sources s)
     \<and> length (nodes s) \<in> set (sources (scheduleNext unit currentDeviceTime s))
     \<and> onended (nodes (scheduleNext unit currentDeviceTime s) ! length (nodes s)) = None
     \<and> length (sources (scheduleAll requests (initialApp :: 't app))) = length requests
     \<and> endedAll finished (scheduleAll requests (initialApp :: 't app)) = scheduleAll requests initialApp
     \<and> (\<exists>s'. stopLiveSession stopThrows s = Inr s' \<and> sources s' = [])"
proof -
  have init: "noCallbacks (initialApp :: 't app)" "sources (initialApp :: 't app) = [0..<length (nodes (initialApp :: 't app))]"
    by (simp_all add: noCallbacks_def initialApp_def)
  have a: "length (sources (scheduleAll requests (initialApp :: 't app))) = length requests"
    using scheduleAll_sources [OF init(2), of requests] by (simp add: initialApp_def)
  have b: "endedAll finished (scheduleAll requests (initialApp :: 't app)) = scheduleAll requests initialApp"
    using scheduleAll_noCallbacks [OF init(1)] by (rule endedAll_noCallbacks)
  have c: "length (nodes s) \<in> set (sources (scheduleNext unit currentDeviceTime s))"
    by (simp add: scheduleNext_fields add_def)
  have d: "\<exists>s'. stopLiveSession stopThrows s = Inr s' \<and> sources s' = []"
    using stopLiveSession_zeroed [of stopThrows s] by blast
  from a b c d show ?thesis by (simp add: scheduleNext_fields)
qed

text \<open>
  The claim as written fails: after three units scheduled at device time 0 and the end
  of playback of all three sources, the set still has its three entries, and none of
  the three sources has a handler.
\<close>

theorem sources_kept_after_playback_ended:
  "length (sources (endedAll [0, 1, 2]
      (scheduleAll [(\<lparr>duration = 1/2\<rparr>, 0), (\<lparr>duration = 1/2\<rparr>, 0), (\<lparr>duration = 1/2\<rparr>, 0)]
         (initialApp :: real app)))) = 3
   \<and> length (sources (endedAll [0, 1, 2]
      (scheduleAll [(\<lparr>duration = 1/2\<rparr>, 0), (\<lparr>duration = 1/2\<rparr>, 0), (\<lparr>duration = 1/2\<rparr>, 0)]
         (initialApp :: real app)))) \<noteq> 0
   \<and> map onended (nodes
      (scheduleAll [(\<lparr>duration = 1/2\<rparr>, 0), (\<lparr>duration = 1/2\<rparr>, 0), (\<lparr>duration = 1/2\<rparr>, 0)]
         (initialApp :: real app))) = [None, None, None]"
  by (simp add: scheduleNext_eq initialApp_def add_def ended_def)

section \<open>Properties of the container writer\<close>

subsection \<open>Little-endian fields read back\<close>

lemma unat_byte_of: "unat (ucast (drop_bit k (w :: 'a::len word)) :: byte) = (unat w div 2 ^ k) mod 256"
  unfolding unsigned_ucast_eq unat_drop_bit_eq by (simp add: take_bit_eq_mod drop_bit_eq_div)

lemma split16: "(x::nat) < 65536 \<Longrightarrow> x mod 256 + 256 * ((x div 256) mod 256) = x"
proof -
  assume b: "x < 65536"
  have 1: "256 * (x div 256) + x mod 256 = x" by (rule mult_div_mod_eq)
  have 4: "x div 256 < 256" using b by simp
  then have 5: "(x div 256) mod 256 = x div 256" by simp
  from 1 5 show ?thesis by simp
qed

lemma split32: "(x::nat) < 4294967296 \<Longrightarrow>
   x mod 256 + 256 * ((x div 256) mod 256) + 65536 * ((x div 65536) mod 256)
     + 16777216 * ((x div 16777216) mod 256) = x"
proof -
  assume b: "x < 4294967296"
  have 1: "256 * (x div 256) + x mod 256 = x" by (rule mult_div_mod_eq)
  have a: "x div 256 div 256 = x div 65536" by (simp add: div_mult2_eq [symmetric])
  have c: "x div 65536 div 256 = x div 16777216" by (simp add: div_mult2_eq [symmetric])
  have 2: "256 * (x div 65536) + (x div 256) mod 256 = x div 256"
    using mult_div_mod_eq [of 256 "x div 256"] by (simp only: a)
  have 3: "256 * (x div 16777216) + (x div 65536) mod 256 = x div 65536"
    using mult_div_mod_eq [of 256 "x div 65536"] by (simp only: c)
  have 4: "x div 16777216 < 256" using b by simp
  then have 5: "(x div 16777216) mod 256 = x div 16777216" by simp
  from 1 2 3 5 show ?thesis by linarith
qed

lemma unat_byte0: "unat (ucast (w :: 'a::len word) :: byte) = unat w mod 256"
  using unat_byte_of [of 0 w] by simp

lemma le32: "unat (ucast w :: byte) + 256 * unat (ucast (drop_bit 8 w) :: byte)
       + 65536 * unat (ucast (drop_bit 16 w) :: byte) + 16777216 * unat (ucast (drop_bit 24 w) :: byte) = unat (w :: 32 word)"
proof -
  have bound: "unat w < 4294967296"
    using unsigned_less [of w, where 'a = nat] by simp
  have "unat (ucast w :: byte) + 256 * unat (ucast (drop_bit 8 w) :: byte)
       + 65536 * unat (ucast (drop_bit 16 w) :: byte) + 16777216 * unat (ucast (drop_bit 24 w) :: byte)
     = unat w mod 256 + 256 * ((unat w div 256) mod 256) + 65536 * ((unat w div 65536) mod 256)
       + 16777216 * ((unat w div 16777216) mod 256)"
    by (simp only: unat_byte0 [of w] unat_byte_of [of 8 w] unat_byte_of [of 16 w] unat_byte_of [of 24 w])
       simp
  also have "\<dots> = unat w"
    by (rule split32 [OF bound])
  finally show ?thesis .
qed

lemma le16: "unat (ucast w :: byte) + 256 * unat (ucast (drop_bit 8 w) :: byte) = unat (w :: 16 word)"
proof -
  have "unat w < 65536" using unsigned_less [of w, where 'a=nat] by simp
  from split16 [OF this] show ?thesis
    by (simp add: unat_byte0 [of w] unat_byte_of [of 8 w])
qed

lemma unat_word_of_int32: "unat (word_of_int v :: 32 word) = nat (v mod 4294967296)"
  by (simp add: unsigned_of_int take_bit_eq_mod)

lemma unat_word_of_int16: "unat (word_of_int v :: 16 word) = nat (v mod 65536)"
  by (simp add: unsigned_of_int take_bit_eq_mod)

lemma readUint32LE_bytes32:
  assumes "take 4 (drop off bs) = bytes32 v True"
  shows "readUint32LE bs off = Inr (nat (v mod 4294967296))"
proof -
  have "readUint32LE bs off = Inr (unat (word_of_int v :: 32 word))"
    using le32 [of "word_of_int v"]
    by (simp add: readUint32LE_def assms bytes32_def Let_def)
  then show ?thesis by (simp only: unat_word_of_int32)
qed

lemma readUint16LE_bytes16:
  assumes "take 2 (drop off bs) = bytes16 v True"
  shows "readUint16LE bs off = Inr (nat (v mod 65536))"
proof -
  have "readUint16LE bs off = Inr (unat (word_of_int v :: 16 word))"
    using le16 [of "word_of_int v"]
    by (simp add: readUint16LE_def assms bytes16_def Let_def)
  then show ?thesis by (simp only: unat_word_of_int16)
qed

subsection \<open>The writes fill the buffer front to back\<close>

lemma length_ascii [simp]: "length (ascii cs) = length cs"
  by (simp add: ascii_def)

lemma length_bytes32 [simp]: "length (bytes32 v e) = 4"
  by (simp add: bytes32_def Let_def)

lemma length_bytes16 [simp]: "length (bytes16 v e) = 2"
  by (simp add: bytes16_def Let_def)

lemma setBytes_next:
  assumes "off = length written" and "length bs \<le> remaining"
  shows "setBytes (length h) off bs (h @ [filled written remaining])
           = Inr (h @ [filled (written @ bs) (remaining - length bs)])"
proof -
  have "drop (length bs) (replicate remaining (0::byte)) = replicate (remaining - length bs) 0"
    by simp
  then show ?thesis
    using assms by (simp add: setBytes_def filled_def)
qed

lemma writeString_next:
  "off = length written \<Longrightarrow> length cs \<le> remaining \<Longrightarrow>
   writeString (length h) off cs (h @ [filled written remaining])
     = Inr (h @ [filled (written @ ascii cs) (remaining - length cs)])"
proof (induction cs arbitrary: off written remaining)
  case Nil
  then show ?case by (simp add: ascii_def)
next
  case (Cons c cs)
  have step: "setUint8 (length h) off (of_char c) (h @ [filled written remaining])
                = Inr (h @ [filled (written @ [word_of_int (of_char c)]) (remaining - 1)])"
    unfolding setUint8_def using Cons.prems setBytes_next [of off written "[word_of_int (of_char c)]" remaining h]
    by simp
  have rest: "writeString (length h) (off + 1) cs (h @ [filled (written @ [word_of_int (of_char c)]) (remaining - 1)])
                = Inr (h @ [filled ((written @ [word_of_int (of_char c)]) @ ascii cs) (remaining - 1 - length cs)])"
    using Cons.prems by (intro Cons.IH) simp_all
  have "writeString (length h) off (c # cs) (h @ [filled written remaining])
          = writeString (length h) (off + 1) cs
              (h @ [filled (written @ [word_of_int (of_char c)]) (remaining - 1)])"
    by (simp only: writeString.simps step sum.case)
  also have "\<dots> = Inr (h @ [filled ((written @ [word_of_int (of_char c)]) @ ascii cs)
                                  (remaining - 1 - length cs)])"
    by (rule rest)
  also have "\<dots> = Inr (h @ [filled (written @ ascii (c # cs)) (remaining - length (c # cs))])"
    by (simp add: ascii_def)
  finally show ?case .
qed

lemma length_wavHeader: "length (wavHeader n r) = 44"
  by (simp add: wavHeader_def)

lemma createWavBlob_result:
  assumes "pcmData < length h"
  shows "createWavBlob pcmData sampleRate h =
           Inr (\<lparr>blobParts = wavHeader (int (length (h ! pcmData))) sampleRate @ h ! pcmData,
                 type = ''audio/wav''\<rparr>,
                h @ [wavHeader (int (length (h ! pcmData))) sampleRate @ h ! pcmData])"
proof -
  let ?p = "h ! pcmData"
  let ?n = "length ?p"
  have start: "replicate (44 + ?n) (0::byte) = filled [] (44 + ?n)"
    by (simp add: filled_def)
  have len: "\<And>w m. pcmLength pcmData (h @ [filled w m]) = int ?n"
    using assms by (simp add: pcmLength_def nth_append)
  have pcm: "\<And>w m. (h @ [filled w m]) ! pcmData = ?p"
    using assms by (simp add: nth_append)
  have fin: "\<And>w. filled w 0 = w" by (simp add: filled_def)
  show ?thesis
    using assms
    by (simp add: createWavBlob_def newArrayBuffer_def start len pcm fin
      setUint16_def setUint32_def setBytes_next writeString_next wavHeader_def
      del: writeString.simps)
qed

lemma wavHeader_fields:
  fixes n r :: int and p :: "byte list"
  defines "out \<equiv> wavHeader n r @ p"
  shows "length out = 44 + length p"
    and "drop 44 out = p"
    and "take 4 out = ascii ''RIFF''"
    and "readUint32LE out 4 = Inr (nat ((36 + n) mod 4294967296))"
    and "take 8 (drop 8 out) = ascii ''WAVEfmt ''"
    and "readUint32LE out 16 = Inr 16"
    and "readUint16LE out 20 = Inr 1"
    and "readUint16LE out 22 = Inr 1"
    and "readUint32LE out 24 = Inr (nat (r mod 4294967296))"
    and "readUint32LE out 28 = Inr (nat ((r * 2) mod 4294967296))"
    and "readUint16LE out 32 = Inr 2"
    and "readUint16LE out 34 = Inr 16"
    and "take 4 (drop 36 out) = ascii ''data''"
    and "readUint32LE out 40 = Inr (nat (n mod 4294967296))"
proof -
  show "length out = 44 + length p" by (simp add: out_def length_wavHeader)
  show "drop 44 out = p" by (simp add: out_def length_wavHeader)
  show "take 4 out = ascii ''RIFF''" by (simp add: out_def wavHeader_def)
  have "take 4 (drop 4 out) = bytes32 (36 + n) True" by (simp add: out_def wavHeader_def)
  from readUint32LE_bytes32 [OF this] show "readUint32LE out 4 = Inr (nat ((36 + n) mod 4294967296))" .
  show "take 8 (drop 8 out) = ascii ''WAVEfmt ''" by (simp add: out_def wavHeader_def ascii_def)
  have "take 4 (drop 16 out) = bytes32 16 True" by (simp add: out_def wavHeader_def)
  from readUint32LE_bytes32 [OF this] show "readUint32LE out 16 = Inr 16" by simp
  have "take 2 (drop 20 out) = bytes16 1 True" by (simp add: out_def wavHeader_def)
  from readUint16LE_bytes16 [OF this] show "readUint16LE out 20 = Inr 1" by simp
  have "take 2 (drop 22 out) = bytes16 1 True" by (simp add: out_def wavHeader_def)
  from readUint16LE_bytes16 [OF this] show "readUint16LE out 22 = Inr 1" by simp
  have "take 4 (drop 24 out) = bytes32 r True" by (simp add: out_def wavHeader_def)
  from readUint32LE_bytes32 [OF this] show "readUint32LE out 24 = Inr (nat (r mod 4294967296))" .
  have "take 4 (drop 28 out) = bytes32 (r * 2) True" by (simp add: out_def wavHeader_def)
  from readUint32LE_bytes32 [OF this] show "readUint32LE out 28 = Inr (nat ((r * 2) mod 4294967296))" .
  have "take 2 (drop 32 out) = bytes16 2 True" by (simp add: out_def wavHeader_def)
  from readUint16LE_bytes16 [OF this] show "readUint16LE out 32 = Inr 2" by simp
  have "take 2 (drop 34 out) = bytes16 16 True" by (simp add: out_def wavHeader_def)
  from readUint16LE_bytes16 [OF this] show "readUint16LE out 34 = Inr 16" by simp
  show "take 4 (drop 36 out) = ascii ''data''" by (simp add: out_def wavHeader_def)
  have "take 4 (drop 40 out) = bytes32 n True" by (simp add: out_def wavHeader_def)
  from readUint32LE_bytes32 [OF this] show "readUint32LE out 40 = Inr (nat (n mod 4294967296))" .
qed

text \<open>
  Claim C4, as the code has it. For every array \<open>pcmData\<close> of PCM16 bytes and every
  integer sample rate, \<open>createWavBlob\<close> returns a blob of type \<open>audio/wav\<close> that is
  exactly 44 header bytes followed by the payload unchanged: the tags \<open>RIFF\<close>,
  \<open>WAVE\<close>, \<open>fmt\<close> and \<open>data\<close>, format chunk size 16, format tag 1 (PCM), channel
  count 1, block align 2, bits per sample 16, and four 32-bit fields that hold the total
  size \<open>36 + len\<close>, the sample rate, the byte rate \<open>sampleRate * 2\<close> and the data size
  \<open>len\<close>, each modulo \<open>2^32\<close>. So the four declared values are exact whenever
  \<open>len < 2^32 - 36\<close> and \<open>0 \<le> sampleRate < 2^31\<close>.
\<close>

theorem createWavBlob_container:
  assumes "pcmData < length h"
  shows "\<exists>out h'. createWavBlob pcmData sampleRate h = Inr (\<lparr>blobParts = out, type = ''audio/wav''\<rparr>, h')
     \<and> length out = 44 + length (h ! pcmData)
     \<and> drop 44 out = h ! pcmData
     \<and> take 4 out = ascii ''RIFF''
     \<and> readUint32LE out 4 = Inr (nat ((36 + int (length (h ! pcmData))) mod 4294967296))
     \<and> take 8 (drop 8 out) = ascii ''WAVEfmt ''
     \<and> readUint32LE out 16 = Inr 16
     \<and> readUint16LE out 20 = Inr 1
     \<and> readUint16LE out 22 = Inr 1
     \<and> readUint32LE out 24 = Inr (nat (sampleRate mod 4294967296))
     \<and> readUint32LE out 28 = Inr (nat ((sampleRate * 2) mod 4294967296))
     \<and> readUint16LE out 32 = Inr 2
     \<and> readUint16LE out 34 = Inr 16
     \<and> take 4 (drop 36 out) = ascii ''data''
     \<and> readUint32LE out 40 = Inr (length (h ! pcmData) mod 4294967296)
     \<and> (length (h ! pcmData) < 4294967260 \<and> 0 \<le> sampleRate \<and> sampleRate < 2147483648 \<longrightarrow>
          readUint32LE out 4 = Inr (36 + length (h ! pcmData))
          \<and> readUint32LE out 24 = Inr (nat sampleRate)
          \<and> readUint32LE out 28 = Inr (nat (sampleRate * 2))
          \<and> readUint32LE out 40 = Inr (length (h ! pcmData)))"
proof -
  let ?p = "h ! pcmData"
  let ?n = "int (length ?p)"
  let ?out = "wavHeader ?n sampleRate @ ?p"
  note f = wavHeader_fields [of ?n sampleRate ?p]
  have size40: "nat (?n mod 4294967296) = length ?p mod 4294967296"
    by (simp add: nat_mod_distrib)
  have small: "length ?p < 4294967260 \<and> 0 \<le> sampleRate \<and> sampleRate < 2147483648 \<longrightarrow>
          readUint32LE ?out 4 = Inr (36 + length ?p)
          \<and> readUint32LE ?out 24 = Inr (nat sampleRate)
          \<and> readUint32LE ?out 28 = Inr (nat (sampleRate * 2))
          \<and> readUint32LE ?out 40 = Inr (length ?p)"
  proof
    assume b: "length ?p < 4294967260 \<and> 0 \<le> sampleRate \<and> sampleRate < 2147483648"
    then have 1: "(36 + ?n) mod 4294967296 = 36 + ?n" by simp
    from b have 2: "sampleRate mod 4294967296 = sampleRate" by simp
    from b have 3: "(sampleRate * 2) mod 4294967296 = sampleRate * 2" by simp
    from b have 4: "?n mod 4294967296 = ?n" by simp
    have 5: "nat (36 + ?n) = 36 + length ?p" by simp
    show "readUint32LE ?out 4 = Inr (36 + length ?p)
          \<and> readUint32LE ?out 24 = Inr (nat sampleRate)
          \<and> readUint32LE ?out 28 = Inr (nat (sampleRate * 2))
          \<and> readUint32LE ?out 40 = Inr (length ?p)"
      using f(4) f(9) f(10) f(14) by (simp only: 1 2 3 4 5 nat_int)
  qed
  have "createWavBlob pcmData sampleRate h = Inr (\<lparr>blobParts = ?out, type = ''audio/wav''\<rparr>, h @ [?out])"
    by (rule createWavBlob_result [OF assms])
  with f small size40 show ?thesis
    by (intro exI [of _ ?out] exI [of _ "h @ [?out]"]) (simp only: simp_thms)
qed

lemma wavHeader_24000_empty:
  "wavHeader 0 24000 =
     [82, 73, 70, 70, 36, 0, 0, 0, 87, 65, 86, 69, 102, 109, 116, 32,
      16, 0, 0, 0, 1, 0, 1, 0, 192, 93, 0, 0, 128, 187, 0, 0, 2, 0, 16, 0,
      100, 97, 116, 97, 0, 0, 0, 0]"
  by (simp add: wavHeader_def ascii_def bytes32_def bytes16_def)

text \<open>
  On an empty payload at 24000 Hz the output is these 44 bytes, with declared sizes 36
  and 0, sample rate 24000 and byte rate 48000.
\<close>

theorem createWavBlob_container_witness:
  "createWavBlob 0 24000 [[]] =
     Inr (\<lparr>blobParts =
             [82, 73, 70, 70, 36, 0, 0, 0, 87, 65, 86, 69, 102, 109, 116, 32,
              16, 0, 0, 0, 1, 0, 1, 0, 192, 93, 0, 0, 128, 187, 0, 0, 2, 0, 16, 0,
              100, 97, 116, 97, 0, 0, 0, 0],
           type = ''audio/wav''\<rparr>,
          [[],
           [82, 73, 70, 70, 36, 0, 0, 0, 87, 65, 86, 69, 102, 109, 116, 32,
            16, 0, 0, 0, 1, 0, 1, 0, 192, 93, 0, 0, 128, 187, 0, 0, 2, 0, 16, 0,
            100, 97, 116, 97, 0, 0, 0, 0]])
   \<and> (\<exists>out h'. createWavBlob 0 24000 [[]] = Inr (\<lparr>blobParts = out, type = ''audio/wav''\<rparr>, h')
         \<and> length out = 44
         \<and> readUint32LE out 4 = Inr 36 \<and> readUint32LE out 40 = Inr 0
         \<and> readUint32LE out 24 = Inr 24000 \<and> readUint32LE out 28 = Inr 48000)"
proof -
  have valid: "0 < length [[] :: byte list]" by simp
  have small: "length ([[] :: byte list] ! 0) < 4294967260 \<and> (0::int) \<le> 24000 \<and> (24000::int) < 2147483648"
    by simp
  have computed: "createWavBlob 0 24000 [[]] =
     Inr (\<lparr>blobParts = wavHeader 0 24000, type = ''audio/wav''\<rparr>, [[], wavHeader 0 24000])"
    using createWavBlob_result [OF valid, of 24000] by simp
  from createWavBlob_container [OF valid, of 24000] small
  have "\<exists>out h'. createWavBlob 0 24000 [[]] = Inr (\<lparr>blobParts = out, type = ''audio/wav''\<rparr>, h')
         \<and> length out = 44
         \<and> readUint32LE out 4 = Inr 36 \<and> readUint32LE out 40 = Inr 0
         \<and> readUint32LE out 24 = Inr 24000 \<and> readUint32LE out 28 = Inr 48000"
    by auto
  with computed show ?thesis by (simp only: wavHeader_24000_empty simp_thms)
qed

text \<open>
  The claim as written fails for a sample rate of \<open>2^31\<close>: the byte rate
  \<open>2^31 * 2\<close> does not fit the 32-bit field, which holds 0.
\<close>

lemma wavHeader_overflow:
  "wavHeader 0 2147483648 =
     [82, 73, 70, 70, 36, 0, 0, 0, 87, 65, 86, 69, 102, 109, 116, 32,
      16, 0, 0, 0, 1, 0, 1, 0, 0, 0, 0, 128, 0, 0, 0, 0, 2, 0, 16, 0,
      100, 97, 116, 97, 0, 0, 0, 0]"
  by (simp add: wavHeader_def ascii_def bytes32_def bytes16_def)

theorem createWavBlob_byte_rate_wraps:
  "createWavBlob 0 2147483648 [[]] =
     Inr (\<lparr>blobParts =
             [82, 73, 70, 70, 36, 0, 0, 0, 87, 65, 86, 69, 102, 109, 116, 32,
              16, 0, 0, 0, 1, 0, 1, 0, 0, 0, 0, 128, 0, 0, 0, 0, 2, 0, 16, 0,
              100, 97, 116, 97, 0, 0, 0, 0],
           type = ''audio/wav''\<rparr>,
          [[],
           [82, 73, 70, 70, 36, 0, 0, 0, 87, 65, 86, 69, 102, 109, 116, 32,
            16, 0, 0, 0, 1, 0, 1, 0, 0, 0, 0, 128, 0, 0, 0, 0, 2, 0, 16, 0,
            100, 97, 116, 97, 0, 0, 0, 0]])
   \<and> readUint32LE
         [82, 73, 70, 70, 36, 0, 0, 0, 87, 65, 86, 69, 102, 109, 116, 32,
          16, 0, 0, 0, 1, 0, 1, 0, 0, 0, 0, 128, 0, 0, 0, 0, 2, 0, 16, 0,
          100, 97, 116, 97, 0, 0, 0, 0] 28 = Inr 0
   \<and> readUint32LE
         [82, 73, 70, 70, 36, 0, 0, 0, 87, 65, 86, 69, 102, 109, 116, 32,
          16, 0, 0, 0, 1, 0, 1, 0, 0, 0, 0, 128, 0, 0, 0, 0, 2, 0, 16, 0,
          100, 97, 116, 97, 0, 0, 0, 0] 28 \<noteq> Inr (2147483648 * 2)"
proof -
  have valid: "0 < length [[] :: byte list]" by simp
  have computed: "createWavBlob 0 2147483648 [[]] =
     Inr (\<lparr>blobParts = wavHeader 0 2147483648, type = ''audio/wav''\<rparr>, [[], wavHeader 0 2147483648])"
    using createWavBlob_result [OF valid, of 2147483648] by simp
  have field: "readUint32LE (wavHeader 0 2147483648 @ []) 28 = Inr 0"
    using wavHeader_fields(10) [of 0 2147483648 "[]"] by simp
  from computed field show ?thesis by (simp add: wavHeader_overflow)
qed

subsection \<open>Determinism and purity\<close>

text \<open>
  Claim C8. Two calls of \<open>createWavBlob\<close>, in any two heaps, on arrays with equal
  bytes and with equal sample rates return the same blob, byte for byte; and each call
  leaves every array that existed before it as it was, the new buffer being the only
  change to the heap.
\<close>

theorem createWavBlob_deterministic:
  assumes "pcmData1 < length h1" and "pcmData2 < length h2"
    and "h1 ! pcmData1 = h2 ! pcmData2" and "sampleRate1 = sampleRate2"
  shows "\<exists>blob h1' h2'.
           createWavBlob pcmData1 sampleRate1 h1 = Inr (blob, h1')
         \<and> createWavBlob pcmData2 sampleRate2 h2 = Inr (blob, h2')
         \<and> take (length h1) h1' = h1 \<and> take (length h2) h2' = h2"
proof -
  let ?out = "wavHeader (int (length (h1 ! pcmData1))) sampleRate1 @ h1 ! pcmData1"
  let ?wav = "\<lparr>blobParts = ?out, type = ''audio/wav''\<rparr>"
  have first: "createWavBlob pcmData1 sampleRate1 h1 = Inr (?wav, h1 @ [?out])"
    by (rule createWavBlob_result [OF assms(1)])
  have second: "createWavBlob pcmData2 sampleRate2 h2 = Inr (?wav, h2 @ [?out])"
    using createWavBlob_result [OF assms(2), of sampleRate2] assms(3,4) by simp
  have kept: "take (length h1) (h1 @ [?out]) = h1" "take (length h2) (h2 @ [?out]) = h2"
    by simp_all
  from first second kept show ?thesis by blast
qed

theorem createWavBlob_deterministic_witness:
  "\<exists>wav h1' h2'.
       createWavBlob 0 24000 [[1, 2]] = Inr (wav, h1')
     \<and> createWavBlob 1 24000 [[9], [1, 2]] = Inr (wav, h2')
     \<and> take 1 h1' = [[1, 2]] \<and> take 2 h2' = [[9], [1, 2]]
     \<and> drop 44 (blobParts wav) = [1, 2]"
proof -
  have a: "0 < length [[1, 2 :: byte]]" and b: "1 < length [[9], [1, 2 :: byte]]"
    and c: "[[1, 2 :: byte]] ! 0 = [[9], [1, 2]] ! 1" and d: "(24000 :: int) = 24000"
    by simp_all
  from createWavBlob_deterministic [OF a b c d] obtain wav h1' h2' where
    r: "createWavBlob 0 24000 [[1, 2]] = Inr (wav, h1')"
       "createWavBlob 1 24000 [[9], [1, 2]] = Inr (wav, h2')"
       "take (length [[1, 2 :: byte]]) h1' = [[1, 2]]"
       "take (length [[9], [1, 2 :: byte]]) h2' = [[9], [1, 2]]"
    by blast
  from r(1) have "blobParts wav = wavHeader 2 24000 @ [1, 2]"
    using createWavBlob_result [OF a, of 24000] by auto
  then have "drop 44 (blobParts wav) = [1, 2]"
    by (simp add: length_wavHeader)
  with r show ?thesis by (auto simp add: numeral_2_eq_2)
qed

section \<open>Properties of the binary codec\<close>

lemma length_alphabet: "length alphabet = 64"
  by (simp add: alphabet_def)

lemma distinct_alphabet: "distinct alphabet"
  by (simp add: alphabet_def)

lemma pad_not_in_alphabet: "CHR ''='' \<notin> set alphabet"
  by (simp add: alphabet_def)

lemma indexOf_nth: "distinct xs \<Longrightarrow> i < length xs \<Longrightarrow> indexOf (xs ! i) xs = Some i"
proof (induction xs arbitrary: i)
  case Nil
  then show ?case by simp
next
  case (Cons x xs)
  show ?case
  proof (cases i)
    case 0
    then show ?thesis by simp
  next
    case (Suc j)
    with Cons.prems have "xs ! j \<noteq> x" "indexOf (xs ! j) xs = Some j"
      using Cons.IH [of j] by auto
    with Suc show ?thesis by simp
  qed
qed

lemma charSextet_sextetChar: "charSextet (sextetChar n) = Some (n mod 64)"
  unfolding charSextet_def sextetChar_def
  by (rule indexOf_nth [OF distinct_alphabet]) (simp add: length_alphabet)

lemma sextetChar_not_pad: "sextetChar n \<noteq> CHR ''=''"
proof -
  have "sextetChar n \<in> set alphabet"
    unfolding sextetChar_def by (rule nth_mem) (simp add: length_alphabet)
  with pad_not_in_alphabet show ?thesis by metis
qed

text \<open>The encoder on the test vectors of RFC 4648, the bytes of \<open>f\<close>, \<open>fo\<close> and \<open>foobar\<close>.\<close>

lemma encode_rfc4648:
  "encode [102] = ''Zg==''"
  "encode [102, 111] = ''Zm8=''"
  "encode [102, 111, 111, 98, 97, 114] = ''Zm9vYmFy''"
  by (simp_all add: sextetChar_def alphabet_def)

lemma hi_lo_div: "k < b \<Longrightarrow> (m * b + k) div b = (m::nat)"
  by simp

lemma hi_lo_mod: "k < b \<Longrightarrow> (m * b + k) mod b = (k::nat)"
  by simp

lemma regroup:
  fixes x y z :: nat
  assumes "x < 256" and "y < 256" and "z < 256"
  defines "s1 \<equiv> (x div 4) mod 64"
    and "s2 \<equiv> ((x mod 4) * 16 + y div 16) mod 64"
    and "s3 \<equiv> ((y mod 16) * 4 + z div 64) mod 64"
    and "s4 \<equiv> (z mod 64) mod 64"
  shows "s1 * 4 + s2 div 16 = x"
    and "(s2 mod 16) * 16 + s3 div 4 = y"
    and "(s3 mod 4) * 64 + s4 = z"
proof -
  have y16: "y div 16 < 16" and z64: "z div 64 < 4" and x4: "x div 4 < 64"
    using assms(1-3) by simp_all
  have x4m: "x mod 4 < 4" and y16m: "y mod 16 < 16" by simp_all
  have b2: "(x mod 4) * 16 + y div 16 < 64" using x4m y16 by linarith
  have b3: "(y mod 16) * 4 + z div 64 < 64" using y16m z64 by linarith
  have e1: "s1 = x div 4" using x4 by (simp add: s1_def)
  have e2: "s2 = (x mod 4) * 16 + y div 16" using b2 by (simp add: s2_def)
  have e3: "s3 = (y mod 16) * 4 + z div 64" using b3 by (simp add: s3_def)
  have e4: "s4 = z mod 64" by (simp add: s4_def)
  have d2: "s2 div 16 = x mod 4" unfolding e2 by (rule hi_lo_div [OF y16])
  have m2: "s2 mod 16 = y div 16" unfolding e2 by (rule hi_lo_mod [OF y16])
  have d3: "s3 div 4 = y mod 16" unfolding e3 by (rule hi_lo_div [OF z64])
  have m3: "s3 mod 4 = z div 64" unfolding e3 by (rule hi_lo_mod [OF z64])
  show "s1 * 4 + s2 div 16 = x" by (simp add: e1 d2)
  show "(s2 mod 16) * 16 + s3 div 4 = y" by (simp add: m2 d3)
  show "(s3 mod 4) * 64 + s4 = z" by (simp add: m3 e4)
qed

lemma word_of_unat: "word_of_nat (unat (a :: byte)) = a"
  by simp

lemma unat_byte_less: "unat (a :: byte) < 256"
  using unsigned_less [of a, where 'a = nat] by simp

lemma decodeGroup4:
  "decodeGroup [sextetChar (unat a div 4), sextetChar ((unat a mod 4) * 16 + unat b div 16),
                sextetChar ((unat b mod 16) * 4 + unat c div 64), sextetChar (unat c mod 64)]
     = Some [a, b, c]"
proof -
  note r = regroup [OF unat_byte_less [of a] unat_byte_less [of b] unat_byte_less [of c]]
  show ?thesis
    by (simp only: decodeGroup.simps charSextet_sextetChar option.case prod.case r word_of_unat)
qed

lemma decodeGroup3:
  "decodeGroup [sextetChar (unat a div 4), sextetChar ((unat a mod 4) * 16 + unat b div 16),
                sextetChar ((unat b mod 16) * 4)]
     = Some [a, b]"
proof -
  note r = regroup [OF unat_byte_less [of a] unat_byte_less [of b], where z = 0]
  have z: "(unat b mod 16) * 4 = (unat b mod 16) * 4 + 0 div 64" by simp
  have "decodeGroup [sextetChar (unat a div 4), sextetChar ((unat a mod 4) * 16 + unat b div 16),
                sextetChar ((unat b mod 16) * 4 + 0 div 64)] = Some [a, b]"
    using r by (simp only: decodeGroup.simps charSextet_sextetChar option.case prod.case word_of_unat)
  then show ?thesis by (simp only: z [symmetric])
qed

lemma decodeGroup2:
  "decodeGroup [sextetChar (unat a div 4), sextetChar ((unat a mod 4) * 16)] = Some [a]"
proof -
  note r = regroup [OF unat_byte_less [of a], where y = 0 and z = 0]
  have z: "(unat a mod 4) * 16 = (unat a mod 4) * 16 + 0 div 16" by simp
  have "decodeGroup [sextetChar (unat a div 4), sextetChar ((unat a mod 4) * 16 + 0 div 16)] = Some [a]"
    using r by (simp only: decodeGroup.simps charSextet_sextetChar option.case prod.case word_of_unat)
  then show ?thesis by (simp only: z [symmetric])
qed

text \<open>
  Claim C6. For every byte sequence \<open>x\<close>, the empty one included, decoding the
  standard base64 string that \<open>encode\<close> produces for \<open>x\<close> succeeds and gives \<open>x\<close>
  back.
\<close>

theorem decode_encode: "decode (encode x) = Inr x"
proof (induction x rule: encode.induct)
  case 1
  then show ?case by simp
next
  case (2 a)
  then show ?case by (simp add: Let_def sextetChar_not_pad decodeGroup2 del: decodeGroup.simps)
next
  case (3 a b)
  then show ?case by (simp add: Let_def sextetChar_not_pad decodeGroup3 del: decodeGroup.simps)
next
  case (4 a b c rest)
  then show ?case by (simp add: Let_def sextetChar_not_pad decodeGroup4 del: decodeGroup.simps)
qed

section \<open>Properties of the transport format\<close>

lemma updateNode_other:
  "outputAudioContext (updateNode source f s) = outputAudioContext s"
  "lastAudioUrl (updateNode source f s) = lastAudioUrl s"
  by (simp_all add: updateNode_def)

lemma honorsFormat_cong:
  "outputAudioContext s' = outputAudioContext s \<Longrightarrow> lastAudioUrl s' = lastAudioUrl s \<Longrightarrow>
   honorsFormat s' = honorsFormat s"
  by (simp add: honorsFormat_def)

lemma playBuffer_other:
  "outputAudioContext (playBuffer b s) = outputAudioContext s"
  "lastAudioUrl (playBuffer b s) = lastAudioUrl s"
  by (simp_all add: playBuffer_eq)

lemma onmessage_other:
  "outputAudioContext (snd (onmessage d f m t s)) = outputAudioContext s"
  "lastAudioUrl (snd (onmessage d f m t s)) = lastAudioUrl s"
  by (simp_all add: onmessage_def advanceCursor_def playBuffer_other Let_def
        split: option.splits sum.splits)

lemma onmessage_at24000mono:
  "honorsFormat s \<Longrightarrow> onmessage d f m t s = onmessage d (at24000mono f) m t s"
  by (auto simp add: onmessage_def honorsFormat_def at24000mono_def Let_def
        split: option.splits sum.splits)

lemma startLiveSession_honorsFormat:
  "honorsFormat s \<Longrightarrow> honorsFormat (startLiveSession isSwitching env config s)"
  by (auto simp add: startLiveSession_def honorsFormat_def openOutput_def Let_def
        split: option.splits sum.splits)

lemma stopLiveSession_other:
  "stopLiveSession stopThrows s = Inr s' \<Longrightarrow>
   outputAudioContext s' = outputAudioContext s \<and> lastAudioUrl s' = lastAudioUrl s"
proof -
  assume a: "stopLiveSession stopThrows s = Inr s'"
  let ?s1 = "if liveSession s \<noteq> None then s\<lparr>liveSession := None\<rparr> else s"
  obtain ns where "forEach (tryStop stopThrows) (sources ?s1) ?s1 = Inr (?s1\<lparr>nodes := ns\<rparr>)"
    using forEach_tryStop_returns by blast
  with a have "s' = ?s1\<lparr>nodes := ns, sources := [], nextStartTime := 0, status := DISCONNECTED\<rparr>"
    unfolding stopLiveSession_def Let_def by simp
  then show ?thesis by simp
qed

lemma ended_other:
  "outputAudioContext (ended source s) = outputAudioContext s"
  "lastAudioUrl (ended source s) = lastAudioUrl s"
  by (simp_all add: ended_def split: option.splits)

lemma playOnce_other:
  "outputAudioContext (start source t (connect source (setBuffer source b (snd (createBufferSource s)))))
     = outputAudioContext s"
  "lastAudioUrl (start source t (connect source (setBuffer source b (snd (createBufferSource s)))))
     = lastAudioUrl s"
  by (simp_all add: start_def connect_def setBuffer_def updateNode_other createBufferSource_def)

lemma runCalibrationTest_other:
  "outputAudioContext (snd (runCalibrationTest_audio d f a s)) = outputAudioContext s"
  "lastAudioUrl (snd (runCalibrationTest_audio d f a s)) = lastAudioUrl s"
  using playOnce_other [of _ _ _ s]
  by (auto simp add: runCalibrationTest_audio_def Let_def createBufferSource_def
        start_def connect_def setBuffer_def updateNode_other
        split: option.splits sum.splits prod.splits)

lemma runCalibrationTest_at24000mono:
  "runCalibrationTest_audio d f a s = runCalibrationTest_audio d (at24000mono f) a s"
  by (simp add: runCalibrationTest_audio_def at24000mono_def Let_def
        split: option.splits sum.splits)

lemma handleVoiceover_at24000mono:
  "handleVoiceover_audio d f a s = handleVoiceover_audio d (at24000mono f) a s"
  by (simp add: handleVoiceover_audio_def at24000mono_def Let_def
        split: option.splits sum.splits prod.splits)

lemma declares24000mono_wav:
  "declares24000mono \<lparr>blobParts = wavHeader n 24000 @ p, type = t\<rparr>"
  using wavHeader_fields(8,9) [of n 24000 p] by (simp add: declares24000mono_def)

lemma handleVoiceover_honorsFormat:
  assumes "honorsFormat s"
  shows "honorsFormat (snd (handleVoiceover_audio d f a s))"
proof -
  have wavOk: "\<And>bytes. createWavBlob (length (heap s)) 24000 (heap s @ [bytes])
      = Inr (\<lparr>blobParts = wavHeader (int (length bytes)) 24000 @ bytes, type = ''audio/wav''\<rparr>,
             (heap s @ [bytes]) @ [wavHeader (int (length bytes)) 24000 @ bytes])"
    using createWavBlob_result [of "length (heap s)" "heap s @ [bytes]" 24000 for bytes]
    by simp
  show ?thesis
    using assms declares24000mono_wav
    by (auto simp add: handleVoiceover_audio_def honorsFormat_def wavOk Let_def
          createBufferSource_def start_def connect_def setBuffer_def updateNode_def
          split: option.splits sum.splits prod.splits)
qed

lemma step_honorsFormat:
  "honorsFormat s \<Longrightarrow> honorsFormat (step d f e s)"
proof (cases e)
  case (StartLiveSession isSwitching env config)
  assume "honorsFormat s"
  then show ?thesis by (simp add: StartLiveSession startLiveSession_honorsFormat)
next
  case (Message m t)
  assume "honorsFormat s"
  then show ?thesis by (simp add: Message honorsFormat_cong [OF onmessage_other])
next
  case (StopLiveSession stopThrows)
  assume h: "honorsFormat s"
  show ?thesis
  proof (cases "stopLiveSession stopThrows s")
    case (Inl e)
    with h show ?thesis by (simp add: StopLiveSession)
  next
    case (Inr s')
    from stopLiveSession_other [OF Inr] h have "honorsFormat s'"
      by (simp add: honorsFormat_def)
    with Inr show ?thesis by (simp add: StopLiveSession)
  qed
next
  case (Ended source)
  assume "honorsFormat s"
  then show ?thesis by (simp add: Ended honorsFormat_cong [OF ended_other])
next
  case (Voiceover a)
  assume "honorsFormat s"
  then show ?thesis by (simp add: Voiceover handleVoiceover_honorsFormat)
next
  case (CalibrationTest a)
  assume "honorsFormat s"
  then show ?thesis by (simp add: CalibrationTest honorsFormat_cong [OF runCalibrationTest_other])
next
  case Opened
  assume "honorsFormat s"
  then show ?thesis by (simp add: Opened honorsFormat_def)
next
  case Failed
  assume "honorsFormat s"
  then show ?thesis by (simp add: Failed honorsFormat_def)
next
  case Closed
  assume "honorsFormat s"
  then show ?thesis by (simp add: Closed honorsFormat_def)
qed

lemma step_at24000mono:
  "honorsFormat s \<Longrightarrow> step d f e s = step d (at24000mono f) e s"
  using onmessage_at24000mono [of s d f] handleVoiceover_at24000mono [of d f]
        runCalibrationTest_at24000mono [of d f]
  by (cases e) simp_all

lemma run_honorsFormat:
  "honorsFormat s \<Longrightarrow>
   honorsFormat (run d f events s) \<and> run d f events s = run d (at24000mono f) events s"
proof (induction events arbitrary: s)
  case Nil
  then show ?case by simp
next
  case (Cons e events)
  have 1: "honorsFormat (step d f e s)" using Cons.prems by (rule step_honorsFormat)
  have 2: "step d f e s = step d (at24000mono f) e s" using Cons.prems by (rule step_at24000mono)
  from Cons.IH [OF 1] show ?case unfolding run.simps 2 [symmetric] by blast
qed

text \<open>
  Claim C7. Start the component in its initial state and let its handlers run in any
  order, with any answers of the environment. Then nothing changes when
  \<open>decodeAudioData\<close> is replaced by a decoder that ignores the context, sample rate
  and channel count it is passed and uses a 24000 Hz context, rate 24000 and one channel:
  every invocation passes exactly those. The output context is absent or was
  constructed with sample rate 24000, and the container behind the download link, if
  any, was written for sample rate 24000, mono.
\<close>

theorem transport_format_24000_mono:
  fixes decodeAudioData :: "'t::{linorder,plus,zero} decoder"
  shows "run decodeBase64 decodeAudioData events initialApp
           = run decodeBase64 (at24000mono decodeAudioData) events initialApp
     \<and> (outputAudioContext (run decodeBase64 decodeAudioData events initialApp) = None
          \<or> outputAudioContext (run decodeBase64 decodeAudioData events initialApp)
               = Some \<lparr>sampleRate_ctx = 24000\<rparr>)
     \<and> (lastAudioUrl (run decodeBase64 decodeAudioData events initialApp) = None
          \<or> (\<exists>wav. lastAudioUrl (run decodeBase64 decodeAudioData events initialApp) = Some wav
                \<and> readUint32LE (blobParts wav) 24 = Inr 24000
                \<and> readUint16LE (blobParts wav) 22 = Inr 1))"
proof -
  have "honorsFormat (initialApp :: 't app)"
    by (simp add: honorsFormat_def initialApp_def)
  from run_honorsFormat [OF this, of decodeBase64 decodeAudioData events]
  show ?thesis
    by (auto simp add: honorsFormat_def declares24000mono_def split: option.splits)
qed

text \<open>
  A run that opens the live session, plays one message and renders one voiceover: the
  output context is a 24000 Hz one and the saved container is the one for 24000 Hz.
\<close>

theorem transport_format_24000_mono_witness:
  "outputAudioContext
     (run (\<lambda>base64. Inr [1, 2]) (\<lambda>bytes ctx rate channels. Inr \<lparr>duration = 1\<rparr>)
        [StartLiveSession False \<lparr>getAI = None, getUserMedia = Inr 0, liveConnect = Inr 0\<rparr>
           (getActiveVoiceConfig ''ananya'' None ''1'' ''1''),
         Message \<lparr>inlineData = Some ''AQI=''\<rparr> 0,
         Voiceover (Some ''AQI='')]
        (initialApp :: real app))
     = Some \<lparr>sampleRate_ctx = 24000\<rparr>
   \<and> lastAudioUrl
     (run (\<lambda>base64. Inr [1, 2]) (\<lambda>bytes ctx rate channels. Inr \<lparr>duration = 1\<rparr>)
        [StartLiveSession False \<lparr>getAI = None, getUserMedia = Inr 0, liveConnect = Inr 0\<rparr>
           (getActiveVoiceConfig ''ananya'' None ''1'' ''1''),
         Message \<lparr>inlineData = Some ''AQI=''\<rparr> 0,
         Voiceover (Some ''AQI='')]
        (initialApp :: real app))
     = Some \<lparr>blobParts = wavHeader 2 24000 @ [1, 2], type = ''audio/wav''\<rparr>
   \<and> run (\<lambda>base64. Inr [1, 2]) (\<lambda>bytes ctx rate channels. Inr \<lparr>duration = 1\<rparr>)
        [StartLiveSession False \<lparr>getAI = None, getUserMedia = Inr 0, liveConnect = Inr 0\<rparr>
           (getActiveVoiceConfig ''ananya'' None ''1'' ''1''),
         Message \<lparr>inlineData = Some ''AQI=''\<rparr> 0,
         Voiceover (Some ''AQI='')]
        (initialApp :: real app)
     = run (\<lambda>base64. Inr [1, 2])
        (at24000mono (\<lambda>bytes ctx rate channels. Inr \<lparr>duration = 1\<rparr>))
        [StartLiveSession False \<lparr>getAI = None, getUserMedia = Inr 0, liveConnect = Inr 0\<rparr>
           (getActiveVoiceConfig ''ananya'' None ''1'' ''1''),
         Message \<lparr>inlineData = Some ''AQI=''\<rparr> 0,
         Voiceover (Some ''AQI='')]
        (initialApp :: real app)"
proof -
  have cfg: "\<exists>c. getActiveVoiceConfig ''ananya'' None ''1'' ''1'' = Inr c"
    by (simp add: getActiveVoiceConfig_def findOrFirst_def PREBUILT_VOICES_def)
  have wav: "createWavBlob 0 24000 [[1, 2]]
      = Inr (\<lparr>blobParts = wavHeader 2 24000 @ [1, 2], type = ''audio/wav''\<rparr>,
             [[1, 2], wavHeader 2 24000 @ [1, 2]])"
    using createWavBlob_result [of 0 "[[1, 2]]" 24000] by simp
  from cfg obtain c where c: "getActiveVoiceConfig ''ananya'' None ''1'' ''1'' = Inr c" by blast
  have "outputAudioContext
     (run (\<lambda>base64. Inr [1, 2]) (\<lambda>bytes ctx rate channels. Inr \<lparr>duration = 1\<rparr>)
        [StartLiveSession False \<lparr>getAI = None, getUserMedia = Inr 0, liveConnect = Inr 0\<rparr>
           (getActiveVoiceConfig ''ananya'' None ''1'' ''1''),
         Message \<lparr>inlineData = Some ''AQI=''\<rparr> 0,
         Voiceover (Some ''AQI='')]
        (initialApp :: real app))
     = Some \<lparr>sampleRate_ctx = 24000\<rparr>
   \<and> lastAudioUrl
     (run (\<lambda>base64. Inr [1, 2]) (\<lambda>bytes ctx rate channels. Inr \<lparr>duration = 1\<rparr>)
        [StartLiveSession False \<lparr>getAI = None, getUserMedia = Inr 0, liveConnect = Inr 0\<rparr>
           (getActiveVoiceConfig ''ananya'' None ''1'' ''1''),
         Message \<lparr>inlineData = Some ''AQI=''\<rparr> 0,
         Voiceover (Some ''AQI='')]
        (initialApp :: real app))
     = Some \<lparr>blobParts = wavHeader 2 24000 @ [1, 2], type = ''audio/wav''\<rparr>"
    by (simp add: c wav startLiveSession_def openOutput_def initialApp_def onmessage_def
          advanceCursor_def playBuffer_eq handleVoiceover_audio_def Let_def
          createBufferSource_def setBuffer_def connect_def start_def updateNode_def)
  with transport_format_24000_mono [of "\<lambda>base64. Inr [1, 2]" "\<lambda>bytes ctx rate channels. Inr \<lparr>duration = 1 :: real\<rparr>"]
  show ?thesis by blast
qed

end
